theory Spec2Isabelle
  imports Complex_Main "HOL-Library.Log_Nat" "HOL-Library.Product_Lexorder"
    "HOL-Library.Sublist"
begin

section \<open>JavaScript numbers and values\<close>

text \<open>
  The component computes with JavaScript numbers, which are IEEE 754 doubles. A number
  is modelled as \<open>Fin x\<close> for a finite double of value \<open>x\<close>, or one of the special values
  \<open>Infinity\<close>, \<open>-Infinity\<close> and \<open>NaN\<close>. The two zeros are one value \<open>Fin 0\<close>: they differ
  only as divisors, and the zero divisors met here are sums \<open>0 + 0\<close>, which are the
  positive zero.
\<close>

datatype jsnum = is_Fin: Fin (the_Fin: real) | PInf | NInf | NaN

text \<open>
  The exponent of a real \<open>x \<noteq> 0\<close>: the integer \<open>e\<close> with \<open>2\<^sup>e \<le> |x| < 2\<^sup>e\<^sup>+\<^sup>1\<close>, read off the
  length in bits of the integer part of \<open>|x|\<close>, or of \<open>1 / |x|\<close> when \<open>|x| < 1\<close>.
\<close>

definition binade :: "real \<Rightarrow> int" where
  "binade x =
     (if 1 \<le> \<bar>x\<bar> then bitlen \<lfloor>\<bar>x\<bar>\<rfloor> - 1
      else - bitlen (\<lceil>1 / \<bar>x\<bar>\<rceil> - 1))"

text \<open>Rounding to the nearest integer, a tie going to the even one.\<close>

definition round_half_even :: "real \<Rightarrow> int" where
  "round_half_even t =
     (let f = \<lfloor>t\<rfloor>; d = t - of_int f
      in if d < 1 / 2 then f else if 1 / 2 < d then f + 1 else if even f then f else f + 1)"

text \<open>
  The double nearest to a real, as every arithmetic operation returns it: 53 bits of
  precision above the exponent \<open>-1022\<close>, the fixed spacing \<open>2\<^sup>-\<^sup>1\<^sup>0\<^sup>7\<^sup>4\<close> below it, and an
  infinity when the rounded value reaches \<open>2\<^sup>1\<^sup>0\<^sup>2\<^sup>4\<close>.
\<close>

definition fl :: "real \<Rightarrow> jsnum" where
  "fl x =
     (if x = 0 then Fin 0
      else
        let q = max (binade x) (- 1022) - 52;
            y = of_int (round_half_even (x / 2 powi q)) * 2 powi q
        in if 2 ^ 1024 \<le> y then PInf else if y \<le> - (2 ^ 1024) then NInf else Fin y)"

fun js_add :: "jsnum \<Rightarrow> jsnum \<Rightarrow> jsnum" where
  "js_add NaN _ = NaN"
| "js_add _ NaN = NaN"
| "js_add (Fin a) (Fin b) = fl (a + b)"
| "js_add PInf NInf = NaN"
| "js_add NInf PInf = NaN"
| "js_add PInf _ = PInf"
| "js_add _ PInf = PInf"
| "js_add NInf _ = NInf"
| "js_add _ NInf = NInf"

fun js_neg :: "jsnum \<Rightarrow> jsnum" where
  "js_neg (Fin a) = Fin (- a)"
| "js_neg PInf = NInf"
| "js_neg NInf = PInf"
| "js_neg NaN = NaN"

definition js_sub :: "jsnum \<Rightarrow> jsnum \<Rightarrow> jsnum" where
  "js_sub a b = js_add a (js_neg b)"

text \<open>The sign of an infinite product or quotient: the infinity of sign \<open>pos\<close>.\<close>

definition inf_of_sign :: "bool \<Rightarrow> jsnum" where
  "inf_of_sign pos = (if pos then PInf else NInf)"

fun js_mul :: "jsnum \<Rightarrow> jsnum \<Rightarrow> jsnum" where
  "js_mul NaN _ = NaN"
| "js_mul _ NaN = NaN"
| "js_mul (Fin a) (Fin b) = fl (a * b)"
| "js_mul (Fin a) PInf = (if a = 0 then NaN else inf_of_sign (0 < a))"
| "js_mul (Fin a) NInf = (if a = 0 then NaN else inf_of_sign (a < 0))"
| "js_mul PInf (Fin b) = (if b = 0 then NaN else inf_of_sign (0 < b))"
| "js_mul NInf (Fin b) = (if b = 0 then NaN else inf_of_sign (b < 0))"
| "js_mul PInf PInf = PInf"
| "js_mul PInf NInf = NInf"
| "js_mul NInf PInf = NInf"
| "js_mul NInf NInf = PInf"

fun js_div :: "jsnum \<Rightarrow> jsnum \<Rightarrow> jsnum" where
  "js_div NaN _ = NaN"
| "js_div _ NaN = NaN"
| "js_div (Fin a) (Fin b) =
     (if b = 0 then (if a = 0 then NaN else inf_of_sign (0 < a)) else fl (a / b))"
| "js_div (Fin a) PInf = Fin 0"
| "js_div (Fin a) NInf = Fin 0"
| "js_div PInf (Fin b) = inf_of_sign (0 \<le> b)"
| "js_div NInf (Fin b) = inf_of_sign (b < 0)"
| "js_div PInf _ = NaN"
| "js_div NInf _ = NaN"

text \<open>
  The comparisons \<open>a > b\<close> and \<open>a >= b\<close>: false as soon as one side is \<open>NaN\<close>.
\<close>

fun js_gt :: "jsnum \<Rightarrow> jsnum \<Rightarrow> bool" where
  "js_gt NaN _ = False"
| "js_gt _ NaN = False"
| "js_gt (Fin a) (Fin b) = (b < a)"
| "js_gt PInf PInf = False"
| "js_gt PInf _ = True"
| "js_gt NInf _ = False"
| "js_gt (Fin a) PInf = False"
| "js_gt (Fin a) NInf = True"

fun js_ge :: "jsnum \<Rightarrow> jsnum \<Rightarrow> bool" where
  "js_ge NaN _ = False"
| "js_ge _ NaN = False"
| "js_ge (Fin a) (Fin b) = (b \<le> a)"
| "js_ge PInf _ = True"
| "js_ge NInf NInf = True"
| "js_ge NInf _ = False"
| "js_ge (Fin a) PInf = False"
| "js_ge (Fin a) NInf = True"

text \<open>
  \<open>Math.max(a, b)\<close> and \<open>Math.round(a)\<close>. Both are exact: the greater of two doubles is
  one of them, and \<open>Math.round\<close> returns the integer \<open>floor(a + 0.5)\<close>, halves going up,
  which is a double when \<open>a\<close> is one.
\<close>

fun Math_max :: "jsnum \<Rightarrow> jsnum \<Rightarrow> jsnum" where
  "Math_max NaN _ = NaN"
| "Math_max _ NaN = NaN"
| "Math_max (Fin a) (Fin b) = Fin (max a b)"
| "Math_max PInf _ = PInf"
| "Math_max _ PInf = PInf"
| "Math_max NInf b = b"
| "Math_max a NInf = a"

fun Math_round :: "jsnum \<Rightarrow> jsnum" where
  "Math_round (Fin a) = Fin (of_int \<lfloor>a + 1 / 2\<rfloor>)"
| "Math_round PInf = PInf"
| "Math_round NInf = NInf"
| "Math_round NaN = NaN"

text \<open>
  The values a caller can pass where an array of numbers is expected. \<open>typeof v\<close> is
  \<open>"number"\<close> exactly for \<open>JNumber\<close>, and \<open>Array.isArray v\<close> holds exactly for \<open>JArray\<close>.
  An array received from a caller may have holes (as \<open>[1, , 3]\<close> and \<open>new Array(3)\<close>
  have): it is the list of its slots, \<open>None\<close> for a hole. \<open>every\<close> and \<open>reduce\<close> skip the
  holes; \<open>length\<close> and \<open>slice\<close> count and keep them.
\<close>

datatype jsval =
    JUndefined
  | JNull
  | JBoolean bool
  | JNumber jsnum
  | JString string
  | JObject
  | JArray "jsval option list"

text \<open>
  \<open>arr[i]\<close> on an array of numbers, used as an operand of \<open>*\<close>: out of range the read is
  \<open>undefined\<close>, which the multiplication turns into \<open>NaN\<close>.
\<close>

definition js_index :: "jsnum list \<Rightarrow> nat \<Rightarrow> jsnum" where
  "js_index arr i = (if i < length arr then arr ! i else NaN)"

text \<open>
  \<open>arr.reduce(f, init)\<close>, where the callback receives the accumulator, the element and
  its index: first on an array without holes (the arrays that the component builds
  itself, with a literal, \<open>map\<close> or \<open>filter\<close>), then on an array that may have holes.
\<close>

fun reduce_from :: "('b \<Rightarrow> 'a \<Rightarrow> nat \<Rightarrow> 'b) \<Rightarrow> nat \<Rightarrow> 'a list \<Rightarrow> 'b \<Rightarrow> 'b" where
  "reduce_from f i [] acc = acc"
| "reduce_from f i (x # xs) acc = reduce_from f (Suc i) xs (f acc x i)"

definition reduce :: "('b \<Rightarrow> 'a \<Rightarrow> nat \<Rightarrow> 'b) \<Rightarrow> 'b \<Rightarrow> 'a list \<Rightarrow> 'b" where
  "reduce f init arr = reduce_from f 0 arr init"

fun reduce_holes_from ::
  "('b \<Rightarrow> 'a \<Rightarrow> nat \<Rightarrow> 'b) \<Rightarrow> nat \<Rightarrow> 'a option list \<Rightarrow> 'b \<Rightarrow> 'b" where
  "reduce_holes_from f i [] acc = acc"
| "reduce_holes_from f i (None # xs) acc = reduce_holes_from f (Suc i) xs acc"
| "reduce_holes_from f i (Some x # xs) acc = reduce_holes_from f (Suc i) xs (f acc x i)"

definition reduce_holes ::
  "('b \<Rightarrow> 'a \<Rightarrow> nat \<Rightarrow> 'b) \<Rightarrow> 'b \<Rightarrow> 'a option list \<Rightarrow> 'b" where
  "reduce_holes f init arr = reduce_holes_from f 0 arr init"

text \<open>\<open>arr.every(p)\<close> on an array that may have holes.\<close>

definition every :: "('a \<Rightarrow> bool) \<Rightarrow> 'a option list \<Rightarrow> bool" where
  "every p arr = list_all (\<lambda>slot. case slot of None \<Rightarrow> True | Some v \<Rightarrow> p v) arr"

text \<open>\<open>arr.slice(-n)\<close>: the last \<open>n\<close> elements, all of them when there are fewer.\<close>

definition slice_last :: "nat \<Rightarrow> 'a list \<Rightarrow> 'a list" where
  "slice_last n arr = drop (length arr - n) arr"

section \<open>Constants\<close>

definition INITIAL_DRIVING_HOURS :: "jsnum list" where
  "INITIAL_DRIVING_HOURS = [Fin 23, Fin 48, Fin 43, Fin 29, Fin 50, Fin 108]"

definition BASE_COST_PER_HOUR :: jsnum where
  "BASE_COST_PER_HOUR = Fin 100"

definition MONTHS :: "string list" where
  "MONTHS = [''January'', ''February'', ''March'', ''April'', ''May'', ''June'', ''July'',
     ''August'', ''September'', ''October'', ''November'', ''December'']"

section \<open>Utility functions\<close>

text \<open>
  \<open>calculateMonthlyCost(hours, costPerHour = BASE_COST_PER_HOUR)\<close>: the second argument
  is optional, \<open>None\<close> is the call with one argument.
\<close>

definition calculateMonthlyCost :: "jsnum \<Rightarrow> jsnum option \<Rightarrow> jsnum" where
  "calculateMonthlyCost hours costPerHour =
     Math_max (Fin 0)
       (js_mul hours (case costPerHour of None \<Rightarrow> BASE_COST_PER_HOUR | Some c \<Rightarrow> c))"

text \<open>The thrown \<open>Error\<close>, with its message.\<close>

datatype error = Error string

definition hour_ok :: "jsval \<Rightarrow> bool" where
  "hour_ok hour = (case hour of JNumber n \<Rightarrow> js_ge n (Fin 0) | _ \<Rightarrow> False)"

definition validateHours :: "jsval \<Rightarrow> error + bool" where
  "validateHours hours =
     (case hours of
        JArray hs \<Rightarrow>
          if length hs = 0 then Inl (Error ''Invalid driving hours data'')
          else Inr (every hour_ok hs)
      | _ \<Rightarrow> Inl (Error ''Invalid driving hours data''))"

text \<open>
  The operand of \<open>hour * weight\<close>. After \<open>validateHours\<close> every element is a number, so
  the conversions that \<open>*\<close> applies to other values are never reached; they are all
  mapped to \<open>NaN\<close> here.
\<close>

fun to_number :: "jsval \<Rightarrow> jsnum" where
  "to_number (JNumber n) = n"
| "to_number _ = NaN"

definition weightedAverage :: "jsval option list \<Rightarrow> jsnum" where
  "weightedAverage historicalHours =
     js_div
       (reduce_holes (\<lambda>sum hour index. js_add sum (js_mul (to_number hour) (Fin (real (index + 1)))))
          (Fin 0) (slice_last 3 historicalHours))
       (reduce_holes (\<lambda>sum _ index. js_add sum (Fin (real (index + 1))))
          (Fin 0) (slice_last 3 historicalHours))"

text \<open>The elements of the array that \<open>validateHours\<close> has accepted.\<close>

fun elements :: "jsval \<Rightarrow> jsval option list" where
  "elements (JArray hs) = hs"
| "elements _ = []"

definition predictFutureHours :: "jsval \<Rightarrow> error + jsnum" where
  "predictFutureHours historicalHours =
     (case validateHours historicalHours of
        Inl e \<Rightarrow> Inl e
      | Inr ok \<Rightarrow>
          if \<not> ok then Inl (Error ''Invalid hours data'')
          else Inr (Math_round (weightedAverage (elements historicalHours))))"

section \<open>Spell options\<close>

record spell_option =
  label :: string
  tireCost :: jsnum
  engineCost :: jsnum
  hourlyRate :: jsnum
  description :: string
  efficiency :: jsnum

definition NONE :: spell_option where
  "NONE = \<lparr>label = ''No Spell'', tireCost = Fin 0, engineCost = Fin 0,
     hourlyRate = BASE_COST_PER_HOUR,
     description = ''Continue journey with original car efficiency'',
     efficiency = Fin 1\<rparr>"

definition TIRE :: spell_option where
  "TIRE = \<lparr>label = ''Tire Spell'', tireCost = Fin 10, engineCost = Fin 0,
     hourlyRate = Fin 93,
     description = ''Upgrade tires for slightly improved efficiency'',
     efficiency = Fin (107 / 100)\<rparr>"

definition ENGINE :: spell_option where
  "ENGINE = \<lparr>label = ''Engine Spell'', tireCost = Fin 0, engineCost = Fin 32,
     hourlyRate = Fin 83,
     description = ''Upgrade engine for significant efficiency improvement'',
     efficiency = Fin (117 / 100)\<rparr>"

definition BOTH :: spell_option where
  "BOTH = \<lparr>label = ''Both Spells'', tireCost = Fin 10, engineCost = Fin 32,
     hourlyRate = Fin 83,
     description = ''Comprehensive magical upgrade for maximum efficiency'',
     efficiency = Fin (125 / 100)\<rparr>"

definition SPELL_OPTIONS :: "(string \<times> spell_option) list" where
  "SPELL_OPTIONS = [(''NONE'', NONE), (''TIRE'', TIRE), (''ENGINE'', ENGINE), (''BOTH'', BOTH)]"

section \<open>The component\<close>

text \<open>
  The functions of \<open>CostAnalysisChart\<close> close over the historical hours (the constant
  \<open>INITIAL_DRIVING_HOURS\<close>) and over \<open>predictedHours\<close>; here both are parameters, written
  first. \<open>predictedHours\<close> itself is the prediction, or 0 when the prediction throws;
  the error messages that the component stores for display are not modelled.
\<close>

definition predictedHours :: "jsval \<Rightarrow> jsnum" where
  "predictedHours hours =
     (case predictFutureHours hours of Inr p \<Rightarrow> p | Inl err \<Rightarrow> Fin 0)"

text \<open>
  An entry of \<open>selectedSpells\<close>. The month is the number of a month of the select box
  and the identifier is \<open>Date.now()\<close>: both are natural numbers.
\<close>

record spell_config =
  spell :: spell_option
  month :: nat
  ident :: nat

definition generateSpellData :: "jsnum list \<Rightarrow> jsnum \<Rightarrow> spell_option \<Rightarrow> nat \<Rightarrow> jsnum list" where
  "generateSpellData hours predicted sp spellStartMonth =
     map (\<lambda>index.
        if index < 6 then calculateMonthlyCost (js_index hours index) None
        else if index < spellStartMonth then calculateMonthlyCost predicted None
        else
          let spellTotalCost = js_add (tireCost sp) (engineCost sp);
              monthlyCost = calculateMonthlyCost predicted (Some (hourlyRate sp))
          in if index = spellStartMonth then js_add spellTotalCost monthlyCost
             else monthlyCost)
       [0..<length MONTHS]"

definition addSpell :: "nat \<Rightarrow> spell_config list \<Rightarrow> spell_config list" where
  "addSpell now prev = prev @ [\<lparr>spell = NONE, month = 6, ident = now\<rparr>]"

definition removeSpell :: "nat \<Rightarrow> spell_config list \<Rightarrow> spell_config list" where
  "removeSpell spellId prev = filter (\<lambda>c. ident c \<noteq> spellId) prev"

definition updateSpell ::
  "nat \<Rightarrow> spell_option \<Rightarrow> nat \<Rightarrow> spell_config list \<Rightarrow> spell_config list" where
  "updateSpell i newSpell newMonth prev =
     map (\<lambda>c. if ident c = i then c\<lparr>spell := newSpell, month := newMonth\<rparr> else c) prev"

text \<open>
  \<open>generateBaselineData\<close>: nothing inside its \<open>try\<close> throws, so the \<open>catch\<close> branch is
  never taken.
\<close>

definition generateBaselineData :: "jsnum list \<Rightarrow> jsnum \<Rightarrow> jsnum list" where
  "generateBaselineData hours predicted =
     map (\<lambda>index.
        if index < 6 then calculateMonthlyCost (js_index hours index) None
        else calculateMonthlyCost predicted None)
       [0..<length MONTHS]"

record analysis =
  savings :: jsnum
  spellConfig :: spell_config
  roi :: jsnum

definition total :: "jsnum list \<Rightarrow> jsnum" where
  "total costs = reduce (\<lambda>sum cost _. js_add sum cost) (Fin 0) costs"

definition calculateScenarioSavings :: "jsnum list \<Rightarrow> jsnum \<Rightarrow> spell_config \<Rightarrow> analysis" where
  "calculateScenarioSavings hours predicted cfg =
     (let baselineCost = total (generateBaselineData hours predicted);
          spellCost = total (generateSpellData hours predicted (spell cfg) (month cfg))
      in \<lparr>savings = js_sub baselineCost spellCost,
          spellConfig = cfg,
          roi = js_mul
                  (js_div (js_sub baselineCost spellCost)
                     (js_add (tireCost (spell cfg)) (engineCost (spell cfg))))
                  (Fin 100)\<rparr>)"

text \<open>
  The objects built with a spread, \<open>{...analysis, description}\<close> and
  \<open>{...bestScenario, recommendation}\<close>: the fields of the first and one more.
\<close>

record scenario = analysis +
  scenario_description :: string

record recommended = scenario +
  recommendation :: string

text \<open>\<open>MONTHS[i]\<close> inside a template string: out of range it prints \<open>undefined\<close>.\<close>

definition month_name :: "nat \<Rightarrow> string" where
  "month_name i = (if i < length MONTHS then MONTHS ! i else ''undefined'')"

definition scenarioAnalysis :: "jsnum list \<Rightarrow> jsnum \<Rightarrow> spell_config list \<Rightarrow> scenario list" where
  "scenarioAnalysis hours predicted selectedSpells =
     map (\<lambda>cfg.
        let analysis = calculateScenarioSavings hours predicted cfg
        in \<lparr>savings = savings analysis, spellConfig = spellConfig analysis, roi = roi analysis,
            scenario_description = label (spell cfg) @ '' in '' @ month_name (month cfg)\<rparr>)
       selectedSpells"

text \<open>
  The best scenario: the reduction starts from the first analysis and replaces it only
  by one with strictly greater savings.
\<close>

definition bestScenario :: "scenario list \<Rightarrow> scenario" where
  "bestScenario analyses =
     reduce (\<lambda>best current _. if js_gt (savings current) (savings best) then current else best)
       (analyses ! 0) analyses"

text \<open>
  \<open>getRecommendedScenario\<close>: \<open>null\<close> (here \<open>None\<close>) for an empty list. \<open>toFixed\<close> is
  JavaScript's \<open>Number.prototype.toFixed\<close>, the printing of a number with a given number
  of decimals; it is a parameter.
\<close>

definition getRecommendedScenario ::
  "(jsnum \<Rightarrow> nat \<Rightarrow> string) \<Rightarrow> jsnum list \<Rightarrow> jsnum \<Rightarrow> spell_config list \<Rightarrow> recommended option" where
  "getRecommendedScenario toFixed hours predicted selectedSpells =
     (if length selectedSpells = 0 then None
      else
        let best = bestScenario (scenarioAnalysis hours predicted selectedSpells)
        in Some \<lparr>savings = savings best, spellConfig = spellConfig best, roi = roi best,
             scenario_description = scenario_description best,
             recommendation =
               (if js_gt (savings best) (Fin 0)
                then scenario_description best @ '' provides the highest savings of ''
                       @ toFixed (savings best) 2 @ '' gold coins with an ROI of ''
                       @ toFixed (roi best) 1 @ ''%''
                else ''None of the current scenarios provide cost savings.'')\<rparr>)"

section \<open>Notions of the specification\<close>

text \<open>
  The finite doubles: the reals \<open>m \<cdot> 2\<^sup>q\<close> with \<open>|m| < 2\<^sup>5\<^sup>3\<close>, \<open>q \<ge> -1074\<close> and magnitude below
  \<open>2\<^sup>1\<^sup>0\<^sup>2\<^sup>4\<close>.
\<close>

definition is_double :: "real \<Rightarrow> bool" where
  "is_double y \<longleftrightarrow>
     (\<exists>m q. y = of_int m * 2 powi q \<and> \<bar>m\<bar> < 2 ^ 53 \<and> - 1074 \<le> q \<and> \<bar>y\<bar> < 2 ^ 1024)"

text \<open>A number whose value, when finite, is a double.\<close>

definition js_double :: "jsnum \<Rightarrow> bool" where
  "js_double x = (case x of Fin y \<Rightarrow> is_double y | _ \<Rightarrow> True)"

text \<open>An array of finite numbers without holes, as a JavaScript value.\<close>

definition num_array :: "real list \<Rightarrow> jsval option list" where
  "num_array xs = map (\<lambda>x. Some (JNumber (Fin x))) xs"

text \<open>
  The trailing window of the prediction: the last 3 elements, all of them if there are
  fewer than 3; and the average of a window of size \<open>k\<close> with the weights \<open>1..k\<close>.
\<close>

definition trailing_window :: "real list \<Rightarrow> real list" where
  "trailing_window xs = (if length xs < 3 then xs else drop (length xs - 3) xs)"

definition linear_weighted_average :: "real list \<Rightarrow> real" where
  "linear_weighted_average w =
     (\<Sum>i<length w. w ! i * real (i + 1)) / (\<Sum>i<length w. real (i + 1))"

text \<open>
  The values that the specification rejects in a historical series: a value that is not
  a number (\<open>NaN\<close> is not one), and a negative number.
\<close>

fun non_numeric :: "jsval \<Rightarrow> bool" where
  "non_numeric (JNumber NaN) = True"
| "non_numeric (JNumber _) = False"
| "non_numeric _ = True"

fun negative_value :: "jsval \<Rightarrow> bool" where
  "negative_value (JNumber (Fin r)) = (r < 0)"
| "negative_value (JNumber NInf) = True"
| "negative_value _ = False"

text \<open>A cost that is a number and not negative.\<close>

definition nonneg_cost :: "jsnum \<Rightarrow> bool" where
  "nonneg_cost c = (case c of Fin v \<Rightarrow> 0 \<le> v | PInf \<Rightarrow> True | _ \<Rightarrow> False)"

text \<open>
  The place of a number in the order by which the comparisons of the code compare:
  \<open>-Infinity\<close>, then the finite numbers, then \<open>Infinity\<close>.
\<close>

definition rank :: "jsnum \<Rightarrow> int \<times> real" where
  "rank a = (case a of NInf \<Rightarrow> (- 1, 0) | Fin x \<Rightarrow> (0, x) | PInf \<Rightarrow> (1, 0) | NaN \<Rightarrow> (2, 0))"

text \<open>A cost that is a natural number up to 11000.\<close>

definition small_amount :: "jsnum \<Rightarrow> bool" where
  "small_amount c = (case c of Fin v \<Rightarrow> v \<in> \<nat> \<and> v \<le> 11000 | _ \<Rightarrow> False)"

text \<open>The fixed catalog of options.\<close>

definition catalog :: "spell_option list" where
  "catalog = map snd SPELL_OPTIONS"


section \<open>Rounding to a double\<close>

lemma pow2_less_imp: "(2::real) powi a < 2 powi b \<Longrightarrow> a < b"
  using power_int_increasing [of b a "2::real"] by force

lemma pow2_le_iff: "(2::real) powi a \<le> 2 powi b \<longleftrightarrow> a \<le> b"
  using power_int_increasing [of a b "2::real"] power_int_strict_increasing [of b a "2::real"]
  by force

lemma binade_bounds:
  assumes "x \<noteq> 0"
  shows "2 powi binade x \<le> \<bar>x\<bar> \<and> \<bar>x\<bar> < 2 powi (binade x + 1)"
proof (cases "1 \<le> \<bar>x\<bar>")
  case True
  let ?n = "\<lfloor>\<bar>x\<bar>\<rfloor>"
  have n: "0 < ?n" using True by simp
  then have b1: "1 \<le> bitlen ?n"
    using bitlen_eq_zero_iff [of ?n] bitlen_nonneg [of ?n] by linarith
  from bitlen_bounds [OF n]
  have lo: "2 ^ nat (bitlen ?n - 1) \<le> ?n" and hi: "?n < 2 ^ nat (bitlen ?n)" by simp_all
  have "(2::real) powi (bitlen ?n - 1) = of_int (2 ^ nat (bitlen ?n - 1))"
    using b1 by (simp add: power_int_nonneg_exp)
  also have "\<dots> \<le> of_int ?n" using lo by (simp only: of_int_le_iff)
  also have "\<dots> \<le> \<bar>x\<bar>" by simp
  finally have 1: "2 powi (bitlen ?n - 1) \<le> \<bar>x\<bar>" .
  have "?n + 1 \<le> 2 ^ nat (bitlen ?n)" using hi by simp
  then have "real_of_int (?n + 1) \<le> of_int (2 ^ nat (bitlen ?n))" by (simp only: of_int_le_iff)
  moreover have "\<bar>x\<bar> < of_int (?n + 1)" by linarith
  moreover have "(2::real) powi (bitlen ?n) = of_int (2 ^ nat (bitlen ?n))"
    using b1 by (simp add: power_int_nonneg_exp)
  ultimately have 2: "\<bar>x\<bar> < 2 powi (bitlen ?n)" by linarith
  show ?thesis using True 1 2 by (simp add: binade_def)
next
  case False
  let ?y = "1 / \<bar>x\<bar>"
  let ?c = "\<lceil>?y\<rceil> - 1"
  have x: "0 < \<bar>x\<bar>" "\<bar>x\<bar> < 1" using assms False by simp_all
  then have y: "1 < ?y" by simp
  then have c: "0 < ?c" by linarith
  then have b1: "1 \<le> bitlen ?c"
    using bitlen_eq_zero_iff [of ?c] bitlen_nonneg [of ?c] by linarith
  from bitlen_bounds [OF c]
  have lo: "2 ^ nat (bitlen ?c - 1) \<le> ?c" and hi: "?c < 2 ^ nat (bitlen ?c)" by simp_all
  have p1: "(2::real) powi (bitlen ?c - 1) = of_int (2 ^ nat (bitlen ?c - 1))"
    and p2: "(2::real) powi (bitlen ?c) = of_int (2 ^ nat (bitlen ?c))"
    using b1 by (simp_all add: power_int_nonneg_exp)
  have "real_of_int ?c < ?y" by linarith
  moreover have "real_of_int (2 ^ nat (bitlen ?c - 1)) \<le> of_int ?c"
    using lo by (simp only: of_int_le_iff)
  ultimately have "2 powi (bitlen ?c - 1) < ?y" using p1 by linarith
  then have "\<bar>x\<bar> * 2 powi (bitlen ?c - 1) < 1"
    using x(1) by (simp add: field_simps)
  then have "\<bar>x\<bar> < 1 / 2 powi (bitlen ?c - 1)"
    by (simp add: field_simps)
  then have 2: "\<bar>x\<bar> < 2 powi (- bitlen ?c + 1)"
    by (simp add: power_int_minus_divide [symmetric])
  have "?c + 1 \<le> 2 ^ nat (bitlen ?c)" using hi by simp
  then have "real_of_int (?c + 1) \<le> of_int (2 ^ nat (bitlen ?c))" by (simp only: of_int_le_iff)
  moreover have "?y \<le> of_int (?c + 1)" by simp
  ultimately have "?y \<le> 2 powi (bitlen ?c)" using p2 by linarith
  then have "1 \<le> \<bar>x\<bar> * 2 powi (bitlen ?c)"
    using x(1) by (simp add: field_simps)
  then have "1 / 2 powi (bitlen ?c) \<le> \<bar>x\<bar>"
    by (simp add: field_simps)
  then have 1: "2 powi (- bitlen ?c) \<le> \<bar>x\<bar>"
    by (simp add: power_int_minus_divide)
  show ?thesis using False 1 2 by (simp add: binade_def)
qed

lemma binade_eqI:
  assumes "2 powi e \<le> \<bar>x\<bar>" and "\<bar>x\<bar> < 2 powi (e + 1)"
  shows "binade x = e"
proof -
  have "0 < \<bar>x\<bar>" using assms(1) zero_less_power_int [of "2::real" e] by linarith
  then have "x \<noteq> 0" by auto
  from binade_bounds [OF this]
  have b: "2 powi binade x \<le> \<bar>x\<bar>" "\<bar>x\<bar> < 2 powi (binade x + 1)" by simp_all
  have "(2::real) powi e < 2 powi (binade x + 1)" using assms(1) b(2) by linarith
  then have "e < binade x + 1" by (rule pow2_less_imp)
  moreover have "(2::real) powi binade x < 2 powi (e + 1)" using assms(2) b(1) by linarith
  then have "binade x < e + 1" by (rule pow2_less_imp)
  ultimately show ?thesis by linarith
qed

lemma round_half_even_of_int [simp]: "round_half_even (of_int n) = n"
  by (simp add: round_half_even_def)

lemma round_half_even_error: "\<bar>of_int (round_half_even t) - t\<bar> \<le> 1 / 2"
  unfolding round_half_even_def Let_def by (auto; linarith)

lemma round_half_even_mono_int:
  "of_int n \<le> t \<Longrightarrow> n \<le> round_half_even t"
  "t \<le> of_int n \<Longrightarrow> round_half_even t \<le> n"
proof -
  show "n \<le> round_half_even t" if "of_int n \<le> t"
  proof -
    have "n \<le> \<lfloor>t\<rfloor>" using that by (simp add: le_floor_iff)
    then show ?thesis unfolding round_half_even_def Let_def by auto
  qed
  show "round_half_even t \<le> n" if "t \<le> of_int n"
  proof (cases "t = of_int n")
    case True
    then show ?thesis by simp
  next
    case False
    then have "t < of_int n" using that by simp
    then have "\<lfloor>t\<rfloor> < n" by (simp add: floor_less_iff)
    then show ?thesis unfolding round_half_even_def Let_def by auto
  qed
qed

lemma fl_not_NaN [simp]: "fl x \<noteq> NaN"
  by (simp add: fl_def Let_def)

lemma fl_0 [simp]: "fl 0 = Fin 0"
  by (simp add: fl_def)

lemma fl_nonneg:
  assumes "0 \<le> x"
  shows "fl x = PInf \<or> (\<exists>y. fl x = Fin y \<and> 0 \<le> y)"
proof (cases "x = 0")
  case True
  then show ?thesis by simp
next
  case False
  let ?q = "max (binade x) (- 1022) - 52"
  have "0 \<le> x / 2 powi ?q" using assms by simp
  then have "of_int 0 \<le> x / 2 powi ?q" by simp
  then have "0 \<le> round_half_even (x / 2 powi ?q)" by (rule round_half_even_mono_int)
  then have "0 \<le> real_of_int (round_half_even (x / 2 powi ?q)) * 2 powi ?q" by simp
  then show ?thesis using False by (simp add: fl_def Let_def)
qed

lemma fl_nonpos:
  assumes "x \<le> 0"
  shows "fl x = NInf \<or> (\<exists>y. fl x = Fin y \<and> y \<le> 0)"
proof (cases "x = 0")
  case True
  then show ?thesis by simp
next
  case False
  let ?q = "max (binade x) (- 1022) - 52"
  have "x / 2 powi ?q \<le> 0" using assms by (simp add: divide_nonpos_pos)
  then have "x / 2 powi ?q \<le> of_int 0" by simp
  then have "round_half_even (x / 2 powi ?q) \<le> 0" by (rule round_half_even_mono_int)
  then have "real_of_int (round_half_even (x / 2 powi ?q)) * 2 powi ?q \<le> 0"
    by (simp add: mult_nonpos_nonneg)
  moreover have "(0::real) < 2 ^ 1024" by simp
  ultimately show ?thesis using False by (simp add: fl_def Let_def)
qed

text \<open>A double is a fixed point of the rounding.\<close>

lemma fl_unfold:
  assumes "x \<noteq> 0" and "q = max (binade x) (- 1022) - 52"
    and "y = of_int (round_half_even (x / 2 powi q)) * 2 powi q"
  shows "fl x = (if 2 ^ 1024 \<le> y then PInf else if y \<le> - (2 ^ 1024) then NInf else Fin y)"
  using assms by (simp add: fl_def Let_def)

lemma fl_double:
  assumes "is_double y"
  shows "fl y = Fin y"
proof (cases "y = 0")
  case True
  then show ?thesis by simp
next
  case False
  from assms obtain m q where y: "y = of_int m * 2 powi q" and m: "\<bar>m\<bar> < 2 ^ 53"
    and q: "- 1074 \<le> q" and fin: "\<bar>y\<bar> < 2 ^ 1024"
    by (auto simp: is_double_def)
  define e where "e = binade y"
  define q' where "q' = max e (- 1022) - 52"
  from binade_bounds [OF False] have lo: "2 powi e \<le> \<bar>y\<bar>" by (simp add: e_def)
  have "\<bar>y\<bar> = of_int \<bar>m\<bar> * 2 powi q" by (simp add: y abs_mult)
  also have "\<dots> < of_int (2 ^ 53) * 2 powi q"
    using m by (intro mult_strict_right_mono) (simp_all only: of_int_less_iff zero_less_power_int zero_less_numeral)
  also have "\<dots> = 2 powi (53 + q)" by (simp add: power_int_add)
  finally have "2 powi e < (2::real) powi (53 + q)" using lo by linarith
  then have "e < 53 + q" by (rule pow2_less_imp)
  then have qq: "q' \<le> q" using q by (simp add: q'_def)
  have "y / 2 powi q' = of_int m * (2 powi q / 2 powi q')" by (simp add: y)
  also have "2 powi q / 2 powi q' = (2::real) powi (q - q')" by (simp add: power_int_diff)
  also have "\<dots> = of_int (2 ^ nat (q - q'))"
    using qq by (simp add: power_int_nonneg_exp)
  finally have int: "y / 2 powi q' = of_int (m * 2 ^ nat (q - q'))" by simp
  have "of_int (round_half_even (y / 2 powi q')) * 2 powi q' = y / 2 powi q' * 2 powi q'"
    unfolding int round_half_even_of_int ..
  also have "\<dots> = y" by simp
  finally have r: "y = of_int (round_half_even (y / 2 powi q')) * 2 powi q'" by simp
  have "\<not> 2 ^ 1024 \<le> y" "\<not> y \<le> - (2 ^ 1024)" using fin by linarith+
  then show ?thesis
    using fl_unfold [OF False _ r] by (simp add: q'_def e_def)
qed

text \<open>What the rounding returns is a double.\<close>

lemma fl_is_double:
  assumes "fl x = Fin y"
  shows "is_double y"
proof (cases "x = 0")
  case True
  then have "y = 0" using assms by simp
  then show ?thesis by (auto simp: is_double_def intro!: exI [of _ 0])
next
  case False
  define e where "e = binade x"
  define q where "q = max e (- 1022) - 52"
  define r where "r = round_half_even (x / 2 powi q)"
  have "fl x = (if 2 ^ 1024 \<le> real_of_int r * 2 powi q then PInf
      else if real_of_int r * 2 powi q \<le> - (2 ^ 1024) then NInf
      else Fin (real_of_int r * 2 powi q))"
    by (rule fl_unfold [OF False]) (simp_all add: q_def e_def r_def)
  then have y: "y = of_int r * 2 powi q" and fin: "y < 2 ^ 1024" "- (2 ^ 1024) < y"
    using assms by (auto split: if_splits)
  from binade_bounds [OF False] have hi: "\<bar>x\<bar> < 2 powi (e + 1)" by (simp add: e_def)
  have "e + 1 \<le> q + 53" by (simp add: q_def)
  then have "(2::real) powi (e + 1) \<le> 2 powi (q + 53)" by (simp only: pow2_le_iff)
  then have "\<bar>x\<bar> < 2 powi (q + 53)" using hi by linarith
  also have "\<dots> = 2 powi q * 2 ^ 53" by (simp add: power_int_add)
  finally have "x < 2 ^ 53 * 2 powi q" "- (2 ^ 53 * 2 powi q) < x"
    by (simp_all add: abs_less_iff mult.commute)
  then have b: "x / 2 powi q \<le> 2 ^ 53" "- (2 ^ 53) \<le> x / 2 powi q"
    by (simp_all add: pos_divide_le_eq pos_le_divide_eq)
  have "r \<le> 2 ^ 53"
    unfolding r_def using b(1) by (intro round_half_even_mono_int(2)) simp
  moreover have "- (2 ^ 53) \<le> r"
    unfolding r_def using b(2) by (intro round_half_even_mono_int(1)) simp
  ultimately have rb: "r \<le> 2 ^ 53" "- (2 ^ 53) \<le> r" by simp_all
  have q: "- 1074 \<le> q" by (simp add: q_def)
  have finy: "\<bar>y\<bar> < 2 ^ 1024" using fin by (simp add: abs_less_iff)
  consider "\<bar>r\<bar> < 2 ^ 53" | "r = 2 ^ 53" | "r = - (2 ^ 53)" using rb by linarith
  then show ?thesis
  proof cases
    case 1
    then show ?thesis unfolding is_double_def using y q finy by blast
  next
    case 2
    have "y = of_int (2 ^ 52) * 2 powi (q + 1)"
      unfolding y 2 by (simp add: power_int_add)
    moreover have "\<bar>2 ^ 52 :: int\<bar> < 2 ^ 53" by simp
    moreover have "- 1074 \<le> q + 1" using q by simp
    ultimately show ?thesis unfolding is_double_def using finy by blast
  next
    case 3
    have "y = of_int (- (2 ^ 52)) * 2 powi (q + 1)"
      unfolding y 3 by (simp add: power_int_add)
    moreover have "\<bar>- (2 ^ 52) :: int\<bar> < 2 ^ 53" by simp
    moreover have "- 1074 \<le> q + 1" using q by simp
    ultimately show ?thesis unfolding is_double_def using finy by blast
  qed
qed

lemma is_double_of_int:
  assumes "\<bar>n\<bar> < 2 ^ 53"
  shows "is_double (of_int n)"
proof -
  have "\<bar>real_of_int n\<bar> < of_int (2 ^ 53)" using assms by (simp only: of_int_abs [symmetric] of_int_less_iff)
  also have "\<dots> < 2 ^ 1024" by simp
  finally have "\<bar>real_of_int n\<bar> < 2 ^ 1024" .
  then show ?thesis
    unfolding is_double_def using assms by (intro exI [of _ n] exI [of _ 0]) simp
qed

lemma fl_of_int: "\<bar>n\<bar> < 2 ^ 53 \<Longrightarrow> fl (of_int n) = Fin (of_int n)"
  by (rule fl_double) (rule is_double_of_int)

lemma fl_1 [simp]: "fl 1 = Fin 1"
  using fl_of_int [of 1] by simp

lemma fl_numeral [simp]:
  "(numeral n :: int) < 2 ^ 53 \<Longrightarrow> fl (numeral n) = Fin (numeral n)"
  using fl_of_int [of "numeral n"] by simp

lemma fl_neg_numeral [simp]:
  "(numeral n :: int) < 2 ^ 53 \<Longrightarrow> fl (- numeral n) = Fin (- numeral n)"
  using fl_of_int [of "- numeral n"] by simp

lemma fl_of_nat:
  assumes "n < 2 ^ 53"
  shows "fl (real n) = Fin (real n)"
proof -
  have "int n < 2 ^ 53" using assms by (metis of_nat_less_iff of_nat_numeral of_nat_power)
  then have "\<bar>int n\<bar> < 2 ^ 53" by simp
  from fl_of_int [OF this] show ?thesis by simp
qed

text \<open>The value of the rounding at a given real, from its exponent.\<close>

lemma fl_eqI:
  assumes "2 powi e \<le> \<bar>x\<bar>" and "\<bar>x\<bar> < 2 powi (e + 1)" and "- 1022 \<le> e"
    and "round_half_even (x / 2 powi (e - 52)) = r"
    and "\<bar>real_of_int r * 2 powi (e - 52)\<bar> < 2 ^ 1024"
  shows "fl x = Fin (of_int r * 2 powi (e - 52))"
proof -
  have e: "binade x = e" using assms(1,2) by (rule binade_eqI)
  have "0 < \<bar>x\<bar>" using assms(1) zero_less_power_int [of "2::real" e] by linarith
  then have x: "x \<noteq> 0" by auto
  have q: "e - 52 = max (binade x) (- 1022) - 52" using assms(3) e by simp
  have y: "real_of_int r * 2 powi (e - 52)
      = of_int (round_half_even (x / 2 powi (e - 52))) * 2 powi (e - 52)"
    using assms(4) by simp
  show ?thesis
    using fl_unfold [OF x q y] assms(5) by (simp add: abs_less_iff)
qed

text \<open>The error of the rounding, for a real below \<open>2\<^sup>k\<^sup>+\<^sup>1\<close>.\<close>

lemma fl_error:
  assumes "\<bar>x\<bar> < 2 powi (k + 1)" and "- 1022 \<le> k" and "k \<le> 1022"
  shows "\<exists>y. fl x = Fin y \<and> \<bar>y - x\<bar> \<le> 2 powi (k - 53)"
proof (cases "x = 0")
  case True
  then show ?thesis by simp
next
  case False
  define e where "e = binade x"
  define q where "q = max e (- 1022) - 52"
  define r where "r = round_half_even (x / 2 powi q)"
  define y where "y = real_of_int r * 2 powi q"
  from binade_bounds [OF False] have "2 powi e \<le> \<bar>x\<bar>" by (simp add: e_def)
  then have "(2::real) powi e < 2 powi (k + 1)" using assms(1) by linarith
  then have "e < k + 1" by (rule pow2_less_imp)
  then have qk: "q - 1 \<le> k - 53" using assms(2) by (simp add: q_def)
  have "\<bar>real_of_int r - x / 2 powi q\<bar> \<le> 1 / 2"
    unfolding r_def by (rule round_half_even_error)
  then have "\<bar>real_of_int r - x / 2 powi q\<bar> * 2 powi q \<le> 1 / 2 * 2 powi q"
    by (intro mult_right_mono) simp_all
  moreover have "\<bar>real_of_int r - x / 2 powi q\<bar> * 2 powi q = \<bar>y - x\<bar>"
  proof -
    have "\<bar>real_of_int r - x / 2 powi q\<bar> * 2 powi q
        = \<bar>(real_of_int r - x / 2 powi q) * 2 powi q\<bar>"
      by (simp add: abs_mult)
    also have "(real_of_int r - x / 2 powi q) * 2 powi q = y - x"
      by (simp add: y_def algebra_simps)
    finally show ?thesis .
  qed
  moreover have "1 / 2 * (2::real) powi q = 2 powi (q - 1)"
    by (simp add: power_int_diff)
  moreover have "(2::real) powi (q - 1) \<le> 2 powi (k - 53)"
    using qk by (simp only: pow2_le_iff)
  ultimately have err: "\<bar>y - x\<bar> \<le> 2 powi (k - 53)" by linarith
  have "k - 53 \<le> k + 1" by simp
  then have "(2::real) powi (k - 53) \<le> 2 powi (k + 1)" by (simp only: pow2_le_iff)
  then have "\<bar>y\<bar> < 2 powi (k + 1) + 2 powi (k + 1)" using err assms(1) by linarith
  also have "\<dots> = 2 powi (k + 2)" by (simp add: power_int_add)
  also have "\<dots> \<le> 2 powi 1024"
  proof -
    have "k + 2 \<le> 1024" using assms(3) by simp
    then show ?thesis by (simp only: pow2_le_iff)
  qed
  finally have fin: "\<bar>y\<bar> < 2 ^ 1024" by simp
  have "fl x = Fin y"
    using fl_unfold [OF False, of q y] fin
    by (simp add: q_def e_def r_def y_def abs_less_iff)
  then show ?thesis using err by blast
qed

lemma round_half_even_eval:
  "round_half_even t =
     (if t - of_int \<lfloor>t\<rfloor> < 1 / 2 then \<lfloor>t\<rfloor>
      else if 1 / 2 < t - of_int \<lfloor>t\<rfloor> then \<lfloor>t\<rfloor> + 1
      else if even \<lfloor>t\<rfloor> then \<lfloor>t\<rfloor> else \<lfloor>t\<rfloor> + 1)"
  by (simp add: round_half_even_def Let_def)

lemma is_doubleI:
  "y = of_int m * 2 powi q \<Longrightarrow> \<bar>m\<bar> < 2 ^ 53 \<Longrightarrow> - 1074 \<le> q \<Longrightarrow> \<bar>y\<bar> < 2 ^ 1024
     \<Longrightarrow> is_double y"
  unfolding is_double_def by blast

lemma is_double_0 [simp]: "is_double 0"
  using is_double_of_int [of 0] by simp

lemma is_double_max_0: "is_double y \<Longrightarrow> is_double (max 0 y)"
  by (simp add: max_def)

section \<open>Arithmetic of numbers\<close>

lemma js_double_fl [simp]: "js_double (fl x)"
  by (cases "fl x") (auto simp: js_double_def dest: fl_is_double)

lemma js_double_inf_of_sign [simp]: "js_double (inf_of_sign b)"
  by (simp add: js_double_def inf_of_sign_def)

lemma js_double_simps [simp]: "js_double PInf" "js_double NInf" "js_double NaN"
  "js_double (Fin y) = is_double y"
  by (simp_all add: js_double_def)

lemma js_double_mul [simp]: "js_double (js_mul a b)"
  by (cases a; cases b) simp_all

lemma js_double_add [simp]: "js_double (js_add a b)"
  by (cases a; cases b) simp_all

lemma js_double_Math_max: "js_double b \<Longrightarrow> js_double (Math_max (Fin 0) b)"
  by (cases b) (simp_all add: is_double_max_0)

lemma js_add_zero_left: "js_double x \<Longrightarrow> js_add (Fin 0) x = x"
  by (cases x) (simp_all add: fl_double)

lemma js_sub_self: "js_sub t t = Fin 0 \<or> js_sub t t = NaN"
  by (cases t) (simp_all add: js_sub_def)

lemma js_index_map_Fin: "i < length h \<Longrightarrow> js_index (map Fin h) i = Fin (h ! i)"
  by (simp add: js_index_def)

lemma nonneg_cost_simps [simp]:
  "nonneg_cost (Fin v) = (0 \<le> v)" "nonneg_cost PInf" "\<not> nonneg_cost NInf" "\<not> nonneg_cost NaN"
  by (simp_all add: nonneg_cost_def)

lemma nonneg_cost_fl: "0 \<le> x \<Longrightarrow> nonneg_cost (fl x)"
  using fl_nonneg [of x] by auto

lemma nonneg_cost_add: "nonneg_cost a \<Longrightarrow> nonneg_cost b \<Longrightarrow> nonneg_cost (js_add a b)"
  by (cases a; cases b) (simp_all add: nonneg_cost_fl)

lemma nonneg_cost_Math_max: "b \<noteq> NaN \<Longrightarrow> nonneg_cost (Math_max (Fin 0) b)"
  by (cases b) simp_all

lemma nonneg_cost_iff: "nonneg_cost c \<longleftrightarrow> js_ge c (Fin 0)"
  by (cases c) simp_all

section \<open>The monthly cost\<close>

lemma calculateMonthlyCost_Fin:
  "calculateMonthlyCost (Fin x) None = Math_max (Fin 0) (fl (x * 100))"
  "calculateMonthlyCost (Fin x) (Some (Fin r)) = Math_max (Fin 0) (fl (x * r))"
  by (simp_all add: calculateMonthlyCost_def BASE_COST_PER_HOUR_def)

lemma js_double_calculateMonthlyCost [simp]: "js_double (calculateMonthlyCost hours rate)"
  by (simp add: calculateMonthlyCost_def js_double_Math_max)

lemma fl_tenth_times_3:
  "fl (3602879701896397 / 36028797018963968 * 3) = Fin (1351079888211149 / 4503599627370496)"
proof -
  have "fl (3602879701896397 / 36028797018963968 * 3)
      = Fin (of_int 5404319552844596 * 2 powi (- 2 - 52))"
    by (rule fl_eqI) (simp_all add: round_half_even_eval)
  then show ?thesis by simp
qed

lemma fl_overflow: "fl (2 ^ 1023 * 2) = PInf"
proof -
  have "binade (2 ^ 1023 * 2) = 1024" by (rule binade_eqI) simp_all
  then show ?thesis by (simp add: fl_def Let_def round_half_even_eval)
qed

text \<open>
  Claim C9 as stated fails: the product is rounded to a double. For the double nearest
  to 0.1, which is \<open>3602879701896397 / 2\<^sup>5\<^sup>5\<close>, and the rate 3, the monthly cost is
  \<open>1351079888211149 / 2\<^sup>5\<^sup>2\<close> (printed \<open>0.30000000000000004\<close>), not the product; and the
  product of \<open>2\<^sup>1\<^sup>0\<^sup>2\<^sup>3\<close> and 2 is \<open>Infinity\<close>.
\<close>

theorem calculateMonthlyCost_rounds:
  "is_double (3602879701896397 / 36028797018963968)
   \<and> calculateMonthlyCost (Fin (3602879701896397 / 36028797018963968)) (Some (Fin 3))
       = Fin (1351079888211149 / 4503599627370496)
   \<and> calculateMonthlyCost (Fin (3602879701896397 / 36028797018963968)) (Some (Fin 3))
       \<noteq> Fin (max 0 (3602879701896397 / 36028797018963968 * 3))
   \<and> is_double (2 ^ 1023)
   \<and> calculateMonthlyCost (Fin (2 ^ 1023)) (Some (Fin 2)) = PInf"
proof (intro conjI)
  show "is_double (3602879701896397 / 36028797018963968)"
    by (rule is_doubleI [of _ 3602879701896397 "- 55"]) simp_all
  show "is_double (2 ^ 1023)"
    by (rule is_doubleI [of _ 1 1023]) simp_all
  show c: "calculateMonthlyCost (Fin (3602879701896397 / 36028797018963968)) (Some (Fin 3))
       = Fin (1351079888211149 / 4503599627370496)"
    by (simp only: calculateMonthlyCost_Fin fl_tenth_times_3) simp
  show "calculateMonthlyCost (Fin (3602879701896397 / 36028797018963968)) (Some (Fin 3))
       \<noteq> Fin (max 0 (3602879701896397 / 36028797018963968 * 3))"
    unfolding c by simp
  show "calculateMonthlyCost (Fin (2 ^ 1023)) (Some (Fin 2)) = PInf"
    by (simp only: calculateMonthlyCost_Fin fl_overflow) simp
qed

text \<open>
  Claim C9, amended. On every pair of reals \<open>x\<close> and \<open>r\<close>, negative ones included,
  \<open>calculateMonthlyCost(x, r)\<close> is \<open>Math.max(0, p)\<close> for the double \<open>p\<close> nearest to the product
  \<open>x * r\<close> (an infinity when the product overflows), and it is never negative. When the
  product is itself a double, as the product of two integers is below \<open>2\<^sup>5\<^sup>3\<close>, the
  monthly cost is exactly \<open>max(0, x * r)\<close>. With the rate left out the rate 100 is used.
\<close>

theorem calculateMonthlyCost_clamp:
  "calculateMonthlyCost (Fin x) (Some (Fin r)) = Math_max (Fin 0) (fl (x * r))
   \<and> calculateMonthlyCost (Fin x) None = Math_max (Fin 0) (fl (x * 100))
   \<and> js_ge (calculateMonthlyCost (Fin x) (Some (Fin r))) (Fin 0)
   \<and> \<not> js_gt (Fin 0) (calculateMonthlyCost (Fin x) (Some (Fin r)))
   \<and> (is_double (x * r) \<longrightarrow>
        calculateMonthlyCost (Fin x) (Some (Fin r)) = Fin (max 0 (x * r)))"
proof (intro conjI impI)
  have "nonneg_cost (Math_max (Fin 0) (fl (x * r)))"
    by (rule nonneg_cost_Math_max) simp
  then show "js_ge (calculateMonthlyCost (Fin x) (Some (Fin r))) (Fin 0)"
    by (simp add: calculateMonthlyCost_Fin nonneg_cost_iff)
  then show "\<not> js_gt (Fin 0) (calculateMonthlyCost (Fin x) (Some (Fin r)))"
    by (cases "calculateMonthlyCost (Fin x) (Some (Fin r))") simp_all
  show "calculateMonthlyCost (Fin x) (Some (Fin r)) = Fin (max 0 (x * r))" if "is_double (x * r)"
    using that by (simp add: calculateMonthlyCost_Fin fl_double)
qed (simp_all add: calculateMonthlyCost_Fin)

theorem calculateMonthlyCost_clamp_witness:
  "is_double (76 * 83)
   \<and> calculateMonthlyCost (Fin 76) (Some (Fin 83)) = Fin 6308
   \<and> is_double (- 3 * 5)
   \<and> calculateMonthlyCost (Fin (- 3)) (Some (Fin 5)) = Fin 0
   \<and> calculateMonthlyCost (Fin (- 3)) None = Fin 0"
proof -
  have d: "is_double (76 * 83)" "is_double (- 3 * 5)"
    using is_double_of_int [of 6308] is_double_of_int [of "- 15"] by simp_all
  show ?thesis
    using calculateMonthlyCost_clamp [of 76 83] calculateMonthlyCost_clamp [of "- 3" 5] d
    by simp
qed

section \<open>The prediction\<close>

lemma every_map_Some [simp]: "every p (map Some xs) = list_all p xs"
  by (simp add: every_def list_all_iff)

lemma every_num_array: "every hour_ok (num_array xs) = (\<forall>x\<in>set xs. 0 \<le> x)"
  by (simp add: every_def num_array_def list_all_iff hour_ok_def)

lemma slice_last_num_array: "slice_last n (num_array xs) = num_array (slice_last n xs)"
  by (simp add: slice_last_def num_array_def drop_map)

lemma slice_last_map: "slice_last n (map f xs) = map f (slice_last n xs)"
  by (simp add: slice_last_def drop_map)

lemma slice_last_trailing_window: "slice_last 3 xs = trailing_window xs"
  by (simp add: slice_last_def trailing_window_def)

lemma trailing_window_nonempty: "xs \<noteq> [] \<Longrightarrow> trailing_window xs \<noteq> []"
  by (cases xs) (auto simp: trailing_window_def)

lemma length_trailing_window: "length (trailing_window xs) \<le> 3"
  by (simp add: trailing_window_def)

lemma set_trailing_window: "set (trailing_window xs) \<subseteq> set xs"
  by (auto simp: trailing_window_def dest: in_set_dropD)

lemma num_array_Cons: "num_array (x # xs) = Some (JNumber (Fin x)) # num_array xs"
  by (simp add: num_array_def)

text \<open>The two reductions of the prediction on natural numbers, where they are exact.\<close>

lemma reduce_weighted_nat:
  assumes "a + (\<Sum>j<length w. w ! j * (i + j + 1)) < 2 ^ 53"
  shows "reduce_holes_from
      (\<lambda>sum hour index. js_add sum (js_mul (to_number hour) (Fin (real (index + 1)))))
      i (num_array (map real w)) (Fin (real a))
    = Fin (real (a + (\<Sum>j<length w. w ! j * (i + j + 1))))"
  using assms
proof (induction w arbitrary: i a)
  case Nil
  then show ?case by (simp add: num_array_def)
next
  case (Cons x w)
  let ?f = "\<lambda>sum hour index. js_add sum (js_mul (to_number hour) (Fin (real (index + 1))))"
  have split: "(\<Sum>j<length (x # w). (x # w) ! j * (i + j + 1))
      = x * (i + 1) + (\<Sum>j<length w. w ! j * (Suc i + j + 1))"
    by (simp add: sum.lessThan_Suc_shift del: sum.lessThan_Suc)
  have b1: "x * (i + 1) < 2 ^ 53" and b2: "a + x * (i + 1) < 2 ^ 53"
    and b3: "a + x * (i + 1) + (\<Sum>j<length w. w ! j * (Suc i + j + 1)) < 2 ^ 53"
    using Cons.prems unfolding split by linarith+
  have "js_mul (Fin (real x)) (Fin (real (i + 1))) = fl (real (x * (i + 1)))"
    by (simp only: js_mul.simps of_nat_mult)
  also have "\<dots> = Fin (real (x * (i + 1)))" using b1 by (rule fl_of_nat)
  finally have m: "js_mul (Fin (real x)) (Fin (real (i + 1))) = Fin (real (x * (i + 1)))" .
  have "js_add (Fin (real a)) (Fin (real (x * (i + 1)))) = fl (real (a + x * (i + 1)))"
    by (simp only: js_add.simps of_nat_add)
  also have "\<dots> = Fin (real (a + x * (i + 1)))" using b2 by (rule fl_of_nat)
  finally have s: "js_add (Fin (real a)) (Fin (real (x * (i + 1)))) = Fin (real (a + x * (i + 1)))" .
  have "reduce_holes_from ?f i (num_array (map real (x # w))) (Fin (real a))
      = reduce_holes_from ?f (Suc i) (num_array (map real w)) (Fin (real (a + x * (i + 1))))"
    by (simp only: list.map num_array_Cons reduce_holes_from.simps to_number.simps m s)
  also have "\<dots> = Fin (real (a + x * (i + 1) + (\<Sum>j<length w. w ! j * (Suc i + j + 1))))"
    using b3 by (rule Cons.IH)
  finally show ?case unfolding split by (simp add: add.assoc)
qed

lemma reduce_weights_nat:
  assumes "a + (\<Sum>j<length ws. i + j + 1) < 2 ^ 53"
  shows "reduce_holes_from (\<lambda>sum _ index. js_add sum (Fin (real (index + 1))))
      i (map Some ws) (Fin (real a))
    = Fin (real (a + (\<Sum>j<length ws. i + j + 1)))"
  using assms
proof (induction ws arbitrary: i a)
  case Nil
  then show ?case by simp
next
  case (Cons x w)
  let ?f = "\<lambda>sum _ index. js_add sum (Fin (real (index + 1)))"
  have split: "(\<Sum>j<length (x # w). i + j + 1) = (i + 1) + (\<Sum>j<length w. Suc i + j + 1)"
    by (simp add: sum.lessThan_Suc_shift del: sum.lessThan_Suc)
  have b2: "a + (i + 1) < 2 ^ 53"
    and b3: "a + (i + 1) + (\<Sum>j<length w. Suc i + j + 1) < 2 ^ 53"
    using Cons.prems unfolding split by linarith+
  have "js_add (Fin (real a)) (Fin (real (i + 1))) = fl (real (a + (i + 1)))"
    by (simp only: js_add.simps of_nat_add)
  also have "\<dots> = Fin (real (a + (i + 1)))" using b2 by (rule fl_of_nat)
  finally have s: "js_add (Fin (real a)) (Fin (real (i + 1))) = Fin (real (a + (i + 1)))" .
  have "reduce_holes_from ?f i (map Some (x # w)) (Fin (real a))
      = reduce_holes_from ?f (Suc i) (map Some w) (Fin (real (a + (i + 1))))"
    by (simp only: list.map reduce_holes_from.simps s)
  also have "\<dots> = Fin (real (a + (i + 1) + (\<Sum>j<length w. Suc i + j + 1)))"
    using b3 by (rule Cons.IH)
  finally show ?case unfolding split by (simp add: add.assoc)
qed

text \<open>
  The quotient of the prediction: for a natural number \<open>s\<close> below \<open>2\<^sup>4\<^sup>3\<close> and a divisor from
  1 to 6, rounding the quotient to a double does not change the integer that
  \<open>Math.round\<close> returns.
\<close>

lemma round_quotient:
  fixes s W :: nat
  assumes s: "s < 2 ^ 43" and W: "1 \<le> W" "W \<le> 6"
  shows "\<exists>y. fl (real s / real W) = Fin y \<and> \<lfloor>y + 1 / 2\<rfloor> = \<lfloor>real s / real W + 1 / 2\<rfloor>"
proof -
  define x where "x = real s / real W"
  define N where "N = 2 * s + W"
  define D where "D = 2 * W"
  define n where "n = N div D"
  define k where "k = N mod D"
  have Wpos: "0 < real W" using W by simp
  have Dpos: "0 < real D" and D12: "D \<le> 12" using W by (simp_all add: D_def)
  have x0: "0 \<le> x" by (simp add: x_def)
  have "1 * real s \<le> real W * real s" using W by (intro mult_right_mono) simp_all
  then have "x \<le> real s" using Wpos by (simp add: x_def field_simps)
  also have "real s < 2 ^ 43" using s by (metis of_nat_less_iff of_nat_numeral of_nat_power)
  finally have x43: "x < 2 ^ 43" .
  then have "\<bar>x\<bar> < 2 powi (42 + 1)" using x0 by simp
  from fl_error [OF this]
  obtain y where y: "fl x = Fin y" and "\<bar>y - x\<bar> \<le> 2 powi (42 - 53)" by auto
  then have err: "\<bar>y - x\<bar> \<le> 1 / 2048" by simp
  have half: "x + 1 / 2 = real N / real D"
    using W by (simp add: x_def N_def D_def field_simps)
  have fl_half: "\<lfloor>x + 1 / 2\<rfloor> = int n"
    unfolding half n_def by (rule floor_divide_of_nat_eq)
  have N: "N = n * D + k" by (simp add: n_def k_def)
  have kD: "k < D" using W by (simp add: k_def D_def)
  have "\<lfloor>y + 1 / 2\<rfloor> = int n"
  proof (cases "k = 0")
    case True
    then have "real N / real D = real n" using Dpos N by simp
    then have xn: "x = real n - 1 / 2" using half by simp
    have "real n \<le> x + 1 / 2" using xn by simp
    then have "real n < 2 ^ 43 + 1" using x43 by linarith
    then have "real n < real (2 ^ 43 + 1)" by simp
    then have n43: "n < 2 ^ 43 + 1" by (simp only: of_nat_less_iff)
    have "is_double x"
    proof (rule is_doubleI [of _ "2 * int n - 1" "- 1"])
      show "x = real_of_int (2 * int n - 1) * 2 powi (- 1)" by (simp add: xn)
      show "\<bar>2 * int n - 1\<bar> < 2 ^ 53" using n43 by simp
      show "\<bar>x\<bar> < 2 ^ 1024" using x0 x43 by simp
    qed simp
    then have "fl x = Fin x" by (rule fl_double)
    then have "y = x" using y by simp
    then show ?thesis using fl_half by simp
  next
    case False
    then have k1: "1 \<le> k" by simp
    have "real N / real D = real n + real k / real D"
      using Dpos by (simp add: N field_simps)
    then have xk: "x + 1 / 2 = real n + real k / real D" using half by simp
    have "D \<le> 12 * k" using k1 D12 by simp
    then have "real D \<le> 12 * real k" by (metis of_nat_le_iff of_nat_mult of_nat_numeral)
    then have lo: "1 / 12 \<le> real k / real D" using Dpos by (simp add: field_simps)
    have "12 * k \<le> 11 * D" using kD D12 by simp
    then have "12 * real k \<le> 11 * real D" by (metis of_nat_le_iff of_nat_mult of_nat_numeral)
    then have hi: "real k / real D \<le> 11 / 12" using Dpos by (simp add: field_simps)
    have e: "x - 1 / 2048 \<le> y \<and> y \<le> x + 1 / 2048" using err by linarith
    have "real n \<le> y + 1 / 2" using e xk lo by linarith
    then have "of_int (int n) \<le> y + 1 / 2" by simp
    moreover have "y + 1 / 2 < real n + 1" using e xk hi by linarith
    then have "y + 1 / 2 < of_int (int n) + 1" by simp
    ultimately show ?thesis by (rule floor_unique)
  qed
  then show ?thesis using y fl_half unfolding x_def by auto
qed

lemma predictFutureHours_array:
  "predictFutureHours (JArray hs) =
     (if hs = [] then Inl (Error ''Invalid driving hours data'')
      else if every hour_ok hs then Inr (Math_round (weightedAverage hs))
      else Inl (Error ''Invalid hours data''))"
  by (simp add: predictFutureHours_def validateHours_def)

lemma predictFutureHours_not_array:
  "(\<forall>hs. v \<noteq> JArray hs) \<Longrightarrow>
     predictFutureHours v = Inl (Error ''Invalid driving hours data'')"
  by (cases v) (simp_all add: predictFutureHours_def validateHours_def)

lemma weights_le_6: "k \<le> 3 \<Longrightarrow> (\<Sum>j<k. j + 1) \<le> (6::nat)"
proof -
  assume "k \<le> 3"
  then consider "k = 0" | "k = 1" | "k = 2" | "k = 3" by linarith
  then show ?thesis
    by cases (simp_all add: lessThan_nat_numeral lessThan_Suc)
qed

lemma weights_ge_1: "0 < k \<Longrightarrow> 1 \<le> (\<Sum>j<k. j + 1 :: nat)"
  by (cases k) simp_all

lemma weightedAverage_nat:
  assumes ne: "ns \<noteq> []" and small: "\<forall>n\<in>set ns. n < 2 ^ 40"
  shows "\<exists>y. weightedAverage (num_array (map real ns)) = Fin y
    \<and> \<lfloor>y + 1 / 2\<rfloor> = round (linear_weighted_average (trailing_window (map real ns)))"
proof -
  define w where "w = slice_last 3 ns"
  define s where "s = (\<Sum>j<length w. w ! j * (j + 1))"
  define W where "W = (\<Sum>j<length w. j + 1)"
  have len: "length w \<le> 3" "0 < length w"
    using ne by (auto simp: w_def slice_last_def)
  have wsmall: "\<forall>j<length w. w ! j < 2 ^ 40"
    using small by (auto simp: w_def slice_last_def dest: in_set_dropD)
  have W: "1 \<le> W" "W \<le> 6"
    using weights_ge_1 [OF len(2)] weights_le_6 [OF len(1)] by (simp_all add: W_def)
  have "s \<le> (\<Sum>j<length w. 2 ^ 40 * (j + 1))"
    unfolding s_def using wsmall by (intro sum_mono mult_right_mono) auto
  also have "\<dots> = 2 ^ 40 * W" by (simp add: W_def sum_distrib_left)
  also have "\<dots> \<le> 2 ^ 40 * 6" using W(2) by simp
  finally have s43: "s < 2 ^ 43" by simp
  have s53: "0 + (\<Sum>j<length w. w ! j * (0 + j + 1)) < 2 ^ 53"
    using s43 by (simp add: s_def)
  have W53: "0 + (\<Sum>j<length (map (\<lambda>x. JNumber (Fin (real x))) w). 0 + j + 1) < 2 ^ 53"
    using W(2) by (simp add: W_def)
  have window: "slice_last 3 (num_array (map real ns)) = num_array (map real w)"
    by (simp add: w_def slice_last_num_array slice_last_map)
  have dense: "num_array (map real w) = map Some (map (\<lambda>x. JNumber (Fin (real x))) w)"
    by (simp add: num_array_def)
  have r1: "reduce_holes
      (\<lambda>sum hour index. js_add sum (js_mul (to_number hour) (Fin (real (index + 1)))))
      (Fin 0) (num_array (map real w)) = Fin (real s)"
    using reduce_weighted_nat [OF s53] by (simp add: reduce_holes_def s_def)
  have r2: "reduce_holes (\<lambda>sum _ index. js_add sum (Fin (real (index + 1))))
      (Fin 0) (num_array (map real w)) = Fin (real W)"
    unfolding dense using reduce_weights_nat [OF W53] by (simp add: reduce_holes_def W_def)
  have Wne: "real W \<noteq> 0" using W(1) by simp
  have avg: "weightedAverage (num_array (map real ns)) = fl (real s / real W)"
    unfolding weightedAverage_def window r1 r2 using Wne by simp
  have "trailing_window (map real ns) = map real w"
    by (simp add: w_def slice_last_trailing_window [symmetric] slice_last_map)
  moreover have "(\<Sum>i<length w. real (w ! i) * real (i + 1)) = real s"
    unfolding s_def by (simp only: of_nat_sum of_nat_mult)
  moreover have "(\<Sum>i<length w. real (i + 1)) = real W"
    unfolding W_def by (simp only: of_nat_sum)
  ultimately have lwa: "linear_weighted_average (trailing_window (map real ns)) = real s / real W"
    by (simp add: linear_weighted_average_def del: of_nat_add of_nat_Suc)
  from round_quotient [OF s43 W]
  obtain y where "fl (real s / real W) = Fin y"
    and "\<lfloor>y + 1 / 2\<rfloor> = \<lfloor>real s / real W + 1 / 2\<rfloor>" by blast
  then show ?thesis
    unfolding avg lwa round_def by blast
qed

lemma predictFutureHours_nat:
  assumes "ns \<noteq> []" and "\<forall>n\<in>set ns. n < 2 ^ 40"
  shows "predictFutureHours (JArray (num_array (map real ns))) =
     Inr (Fin (of_int (round (linear_weighted_average (trailing_window (map real ns))))))"
proof -
  from weightedAverage_nat [OF assms]
  obtain y where "weightedAverage (num_array (map real ns)) = Fin y"
    and "\<lfloor>y + 1 / 2\<rfloor> = round (linear_weighted_average (trailing_window (map real ns)))"
    by blast
  moreover have "every hour_ok (num_array (map real ns))"
    by (simp add: every_num_array)
  moreover have "num_array (map real ns) \<noteq> []"
    using assms(1) by (simp add: num_array_def)
  ultimately show ?thesis
    by (simp add: predictFutureHours_array)
qed

lemma linear_weighted_average_initial:
  "linear_weighted_average (trailing_window [23, 48, 43, 29, 50, 108]) = 151 / 2"
  by (simp add: linear_weighted_average_def trailing_window_def lessThan_nat_numeral
      lessThan_Suc)

lemma predictFutureHours_initial:
  "predictFutureHours (JArray (num_array [23, 48, 43, 29, 50, 108])) = Inr (Fin 76)"
proof -
  have "[23, 48, 43, 29, 50, 108 :: nat] \<noteq> []"
    and "\<forall>n\<in>set [23, 48, 43, 29, 50, 108 :: nat]. n < 2 ^ 40" by simp_all
  from predictFutureHours_nat [OF this]
  show ?thesis by (simp add: linear_weighted_average_initial round_def)
qed

lemma predictedHours_initial:
  "predictedHours (JArray (map (\<lambda>n. Some (JNumber n)) INITIAL_DRIVING_HOURS)) = Fin 76"
proof -
  have "map (\<lambda>n. Some (JNumber n)) INITIAL_DRIVING_HOURS = num_array [23, 48, 43, 29, 50, 108]"
    by (simp add: INITIAL_DRIVING_HOURS_def num_array_def)
  then show ?thesis
    by (simp add: predictedHours_def predictFutureHours_initial)
qed

lemma hour_ok_iff: "hour_ok h \<longleftrightarrow> \<not> non_numeric h \<and> \<not> negative_value h"
proof (cases h)
  case (JNumber n)
  then show ?thesis by (cases n) (auto simp: hour_ok_def)
qed (simp_all add: hour_ok_def)

text \<open>
  On an array without holes the prediction throws exactly when the array is empty or
  has an element that is not a number or is negative.
\<close>

lemma predictFutureHours_dense_raises_iff:
  "(\<exists>e. predictFutureHours (JArray (map Some vs)) = Inl e) \<longleftrightarrow>
     vs = [] \<or> (\<exists>h\<in>set vs. non_numeric h \<or> negative_value h)"
  by (auto simp: predictFutureHours_array list_all_iff hour_ok_iff)

lemma is_double_tenth: "is_double (3602879701896397 / 36028797018963968)"
  by (rule is_doubleI [of _ 3602879701896397 "- 55"]) simp_all

lemma is_double_seven_tenths: "is_double (3152519739159347 / 4503599627370496)"
  by (rule is_doubleI [of _ 3152519739159347 "- 52"]) simp_all

lemma is_double_fourteen_tenths: "is_double (3152519739159347 / 2251799813685248)"
  by (rule is_doubleI [of _ 3152519739159347 "- 51"]) simp_all

lemma is_double_half: "is_double (1 / 2)"
  by (rule is_doubleI [of _ 1 "- 1"]) simp_all

lemma is_double_five_halves: "is_double (5 / 2)"
  by (rule is_doubleI [of _ 5 "- 1"]) simp_all

lemma fl_sum_tenths:
  "fl (54043195528445949 / 36028797018963968) = Fin (3 / 2)"
proof -
  have "fl (54043195528445949 / 36028797018963968)
      = Fin (of_int 6755399441055744 * 2 powi (0 - 52))"
    by (rule fl_eqI) (simp_all add: round_half_even_eval)
  then show ?thesis by simp
qed

lemma predictFutureHours_tenths:
  "predictFutureHours (JArray (num_array
      [3602879701896397 / 36028797018963968, 3152519739159347 / 4503599627370496]))
     = Inr (Fin 1)"
  by (simp add: predictFutureHours_array every_def hour_ok_def num_array_def
      weightedAverage_def reduce_holes_def slice_last_def fl_double is_double_tenth
      is_double_fourteen_tenths fl_sum_tenths is_double_half)

lemma average_tenths:
  "linear_weighted_average (trailing_window
      [3602879701896397 / 36028797018963968, 3152519739159347 / 4503599627370496])
     = 18014398509481983 / 36028797018963968"
  by (simp add: linear_weighted_average_def trailing_window_def lessThan_nat_numeral
      lessThan_Suc)

text \<open>
  Claim C1 as stated fails: the sums and the quotient are rounded to doubles. On the
  doubles nearest to 0.1 and 0.7 the weighted sum \<open>0.1 + 1.4\<close> is rounded up to 1.5, the
  quotient is 0.5 and the prediction is 1, while the weighted average of the two numbers
  is below one half and its nearest integer is 0.
\<close>

theorem predictFutureHours_rounds:
  "is_double (3602879701896397 / 36028797018963968)
   \<and> is_double (3152519739159347 / 4503599627370496)
   \<and> predictFutureHours (JArray (num_array
        [3602879701896397 / 36028797018963968, 3152519739159347 / 4503599627370496]))
       = Inr (Fin 1)
   \<and> round (linear_weighted_average (trailing_window
        [3602879701896397 / 36028797018963968, 3152519739159347 / 4503599627370496])) = 0"
  by (simp add: is_double_tenth is_double_seven_tenths predictFutureHours_tenths
      average_tenths round_def)

text \<open>
  Claim C1, amended. On a non-empty sequence of non-negative integers below \<open>2\<^sup>4\<^sup>0\<close>
  \<open>predictFutureHours\<close> takes the last 3 elements (all of them if there are fewer),
  averages them with the weights \<open>1..k\<close> and rounds the average to the nearest integer,
  which is at most one half away from it; on \<open>[23, 48, 43, 29, 50, 108]\<close> the result is
  76.
\<close>

theorem predictFutureHours_weighted:
  "(ns \<noteq> [] \<and> (\<forall>n\<in>set ns. n < 2 ^ 40) \<longrightarrow>
      predictFutureHours (JArray (num_array (map real ns))) =
        Inr (Fin (of_int (round (linear_weighted_average (trailing_window (map real ns))))))
      \<and> \<bar>of_int (round (linear_weighted_average (trailing_window (map real ns))))
           - linear_weighted_average (trailing_window (map real ns))\<bar> \<le> 1 / 2)
   \<and> predictFutureHours (JArray (num_array [23, 48, 43, 29, 50, 108])) = Inr (Fin 76)"
proof (intro conjI impI)
  assume "ns \<noteq> [] \<and> (\<forall>n\<in>set ns. n < 2 ^ 40)"
  then show "predictFutureHours (JArray (num_array (map real ns))) =
      Inr (Fin (of_int (round (linear_weighted_average (trailing_window (map real ns))))))"
    by (simp add: predictFutureHours_nat)
  show "\<bar>of_int (round (linear_weighted_average (trailing_window (map real ns))))
           - linear_weighted_average (trailing_window (map real ns))\<bar> \<le> 1 / 2"
    by (rule of_int_round_abs_le)
next
  show "predictFutureHours (JArray (num_array [23, 48, 43, 29, 50, 108])) = Inr (Fin 76)"
    by (rule predictFutureHours_initial)
qed

theorem predictFutureHours_weighted_witness:
  "[1, 4 :: nat] \<noteq> [] \<and> list_all (\<lambda>n. n < 2 ^ 40) [1, 4 :: nat]
   \<and> linear_weighted_average (trailing_window [1, 4]) = 3
   \<and> predictFutureHours (JArray (num_array [1, 4])) = Inr (Fin 3)"
proof -
  have avg: "linear_weighted_average (trailing_window [1, 4]) = 3"
    by (simp add: linear_weighted_average_def trailing_window_def lessThan_nat_numeral
        lessThan_Suc)
  show ?thesis
    using predictFutureHours_weighted [of "[1, 4]"] by (simp add: avg)
qed

text \<open>
  Claim C5 at an array with holes. \<open>validateHours\<close> accepts \<open>new Array(3)\<close> and
  \<open>[1, , 3]\<close>, since \<open>every\<close> does not visit a hole, and \<open>predictFutureHours\<close> throws
  nothing: it returns \<open>NaN\<close> on the first and 3 on the second, where the claim has an
  error raised for a series with an entry that is not a number.
\<close>

theorem validateHours_skips_holes:
  "validateHours (JArray [None, None, None]) = Inr True
   \<and> predictFutureHours (JArray [None, None, None]) = Inr NaN
   \<and> validateHours (JArray [Some (JNumber (Fin 1)), None, Some (JNumber (Fin 3))]) = Inr True
   \<and> predictFutureHours (JArray [Some (JNumber (Fin 1)), None, Some (JNumber (Fin 3))])
       = Inr (Fin 3)"
  by (simp add: predictFutureHours_array validateHours_def every_def hour_ok_def
      weightedAverage_def reduce_holes_def slice_last_def fl_double is_double_five_halves)

section \<open>The two series\<close>

lemma length_MONTHS: "length MONTHS = 12"
  by (simp add: MONTHS_def)

lemma length_generateSpellData: "length (generateSpellData hours predicted sp m) = 12"
  by (simp add: generateSpellData_def length_MONTHS)

lemma length_generateBaselineData: "length (generateBaselineData hours predicted) = 12"
  by (simp add: generateBaselineData_def length_MONTHS)

lemma generateSpellData_nth:
  "i < 12 \<Longrightarrow> generateSpellData hours predicted sp m ! i =
     (if i < 6 then calculateMonthlyCost (js_index hours i) None
      else if i < m then calculateMonthlyCost predicted None
      else if i = m then js_add (js_add (tireCost sp) (engineCost sp))
                           (calculateMonthlyCost predicted (Some (hourlyRate sp)))
      else calculateMonthlyCost predicted (Some (hourlyRate sp)))"
  by (simp add: generateSpellData_def length_MONTHS Let_def)

lemma generateBaselineData_nth:
  "i < 12 \<Longrightarrow> generateBaselineData hours predicted ! i =
     (if i < 6 then calculateMonthlyCost (js_index hours i) None
      else calculateMonthlyCost predicted None)"
  by (simp add: generateBaselineData_def length_MONTHS)

lemma calculateMonthlyCost_default:
  "calculateMonthlyCost predicted (Some BASE_COST_PER_HOUR) = calculateMonthlyCost predicted None"
  by (simp add: calculateMonthlyCost_def)

lemma generateSpellData_NONE:
  "generateSpellData hours predicted NONE m = generateBaselineData hours predicted"
proof -
  have "js_add (js_add (tireCost NONE) (engineCost NONE))
          (calculateMonthlyCost predicted (Some (hourlyRate NONE)))
      = calculateMonthlyCost predicted None"
    by (simp add: NONE_def calculateMonthlyCost_default js_add_zero_left)
  moreover have "calculateMonthlyCost predicted (Some (hourlyRate NONE))
      = calculateMonthlyCost predicted None"
    by (simp add: NONE_def calculateMonthlyCost_default)
  ultimately show ?thesis
    by (simp add: generateSpellData_def generateBaselineData_def Let_def)
qed

lemma INITIAL_DRIVING_HOURS_Fin:
  "INITIAL_DRIVING_HOURS = map Fin [23, 48, 43, 29, 50, 108]"
  by (simp add: INITIAL_DRIVING_HOURS_def)

lemma baseline_data_initial:
  "generateBaselineData INITIAL_DRIVING_HOURS (Fin 76)
     = [Fin 2300, Fin 4800, Fin 4300, Fin 2900, Fin 5000, Fin 10800,
        Fin 7600, Fin 7600, Fin 7600, Fin 7600, Fin 7600, Fin 7600]"
  by (simp add: generateBaselineData_def MONTHS_def upt_rec js_index_def
      INITIAL_DRIVING_HOURS_def calculateMonthlyCost_def BASE_COST_PER_HOUR_def)

text \<open>
  Claim C2. With the option \<open>NONE\<close> (no one-time cost, the base rate) the series of a
  scenario is the baseline series, for every historical series, every predicted value
  and every month of activation; those of 6 to 11 are among them.
\<close>

theorem no_spell_is_baseline:
  "generateSpellData hours predicted NONE spellStartMonth
     = generateBaselineData hours predicted"
  by (rule generateSpellData_NONE)

theorem no_spell_is_baseline_witness:
  "generateSpellData INITIAL_DRIVING_HOURS (Fin 76) NONE 9
     = [Fin 2300, Fin 4800, Fin 4300, Fin 2900, Fin 5000, Fin 10800,
        Fin 7600, Fin 7600, Fin 7600, Fin 7600, Fin 7600, Fin 7600]"
  using no_spell_is_baseline [of INITIAL_DRIVING_HOURS "Fin 76" 9]
  by (simp add: baseline_data_initial)

text \<open>
  Claim C3. For every option and every month of activation \<open>m\<close> from 6 to 11, the series
  of the scenario has 12 entries: the months 0 to 5 are the historical hours at the base
  rate, the months from 6 up to \<open>m - 1\<close> the predicted hours at the base rate, the month
  \<open>m\<close> the one-time cost (tire cost plus engine cost) added to the predicted hours at the
  rate of the option, and the months after \<open>m\<close> the predicted hours at the rate of the
  option. For \<open>m = 6\<close> the month 6 carries the one-time cost and every month from 6 on
  is at the rate of the option, none at the base rate.
\<close>

theorem generateSpellData_months:
  assumes "6 \<le> m" and "m \<le> 11"
  shows "length (generateSpellData hours predicted sp m) = 12
    \<and> (\<forall>i<6. i < length hours \<longrightarrow>
          generateSpellData hours predicted sp m ! i = calculateMonthlyCost (hours ! i) None)
    \<and> (\<forall>i. 6 \<le> i \<and> i < m \<longrightarrow>
          generateSpellData hours predicted sp m ! i
            = calculateMonthlyCost predicted (Some BASE_COST_PER_HOUR))
    \<and> generateSpellData hours predicted sp m ! m
          = js_add (js_add (tireCost sp) (engineCost sp))
              (calculateMonthlyCost predicted (Some (hourlyRate sp)))
    \<and> (\<forall>i. m < i \<and> i < 12 \<longrightarrow>
          generateSpellData hours predicted sp m ! i
            = calculateMonthlyCost predicted (Some (hourlyRate sp)))
    \<and> generateSpellData hours predicted sp 6 ! 6
          = js_add (js_add (tireCost sp) (engineCost sp))
              (calculateMonthlyCost predicted (Some (hourlyRate sp)))
    \<and> (\<forall>i. 6 < i \<and> i < 12 \<longrightarrow>
          generateSpellData hours predicted sp 6 ! i
            = calculateMonthlyCost predicted (Some (hourlyRate sp)))"
  using assms
  by (auto simp: length_generateSpellData generateSpellData_nth js_index_def
      calculateMonthlyCost_def)

theorem generateSpellData_months_witness:
  "generateSpellData INITIAL_DRIVING_HOURS (Fin 76) BOTH 8 ! 5 = Fin 10800
   \<and> generateSpellData INITIAL_DRIVING_HOURS (Fin 76) BOTH 8 ! 6 = Fin 7600
   \<and> generateSpellData INITIAL_DRIVING_HOURS (Fin 76) BOTH 8 ! 7 = Fin 7600
   \<and> generateSpellData INITIAL_DRIVING_HOURS (Fin 76) BOTH 8 ! 8 = Fin 6350
   \<and> generateSpellData INITIAL_DRIVING_HOURS (Fin 76) BOTH 8 ! 9 = Fin 6308
   \<and> generateSpellData INITIAL_DRIVING_HOURS (Fin 76) BOTH 8 ! 11 = Fin 6308"
proof -
  have both: "tireCost BOTH = Fin 10" "engineCost BOTH = Fin 32" "hourlyRate BOTH = Fin 83"
    by (simp_all add: BOTH_def)
  have h5: "length INITIAL_DRIVING_HOURS = 6" "INITIAL_DRIVING_HOURS ! 5 = Fin 108"
    by (simp_all add: INITIAL_DRIVING_HOURS_def)
  have "(6::nat) \<le> 8" and "(8::nat) \<le> 11" by simp_all
  from generateSpellData_months [OF this, of INITIAL_DRIVING_HOURS "Fin 76" BOTH]
  show ?thesis
    by (simp add: both h5 calculateMonthlyCost_Fin BASE_COST_PER_HOUR_def)
qed

lemma catalog_cases:
  "sp \<in> set catalog \<Longrightarrow> sp = NONE \<or> sp = TIRE \<or> sp = ENGINE \<or> sp = BOTH"
  by (auto simp: catalog_def SPELL_OPTIONS_def)

lemma catalog_costs:
  assumes "sp \<in> set catalog"
  shows "\<exists>t e r. tireCost sp = Fin t \<and> engineCost sp = Fin e \<and> hourlyRate sp = Fin r
           \<and> 0 \<le> t \<and> 0 \<le> e"
  using catalog_cases [OF assms]
  by (auto simp: NONE_def TIRE_def ENGINE_def BOTH_def BASE_COST_PER_HOUR_def)

text \<open>
  The savings of every configuration that the component can build, an option of the
  catalog on the constant hours and their prediction 76, are a finite number: the costs
  are natural numbers up to 11000, and their totals are exact.
\<close>

lemma small_amountE:
  assumes "small_amount c"
  obtains n where "c = Fin (real n)" and "n \<le> 11000"
proof (cases c)
  case (Fin v)
  with assms obtain n where v: "v = real n" and "v \<le> 11000"
    by (auto simp: small_amount_def elim: Nats_cases)
  then have "real n \<le> real 11000" by simp
  then have "n \<le> 11000" by (simp only: of_nat_le_iff)
  with Fin v that show ?thesis by blast
qed (use assms in \<open>simp_all add: small_amount_def\<close>)

lemma total_from_small:
  assumes "\<forall>c\<in>set cs. small_amount c" and "a + 11000 * length cs < 2 ^ 53"
  shows "\<exists>n. reduce_from (\<lambda>sum cost _. js_add sum cost) i cs (Fin (real a)) = Fin (real n)"
  using assms
proof (induction cs arbitrary: a i)
  case Nil
  then show ?case by simp
next
  case (Cons c cs)
  from Cons.prems(1) have "small_amount c" by simp
  then obtain m where c: "c = Fin (real m)" and m: "m \<le> 11000" by (rule small_amountE)
  have "a + m < 2 ^ 53" using Cons.prems(2) m by simp
  then have "fl (real (a + m)) = Fin (real (a + m))" by (rule fl_of_nat)
  then have step: "js_add (Fin (real a)) c = Fin (real (a + m))"
    unfolding c by (simp only: js_add.simps of_nat_add)
  have "a + m + 11000 * length cs < 2 ^ 53" using Cons.prems(2) m by simp
  moreover have "\<forall>c\<in>set cs. small_amount c" using Cons.prems(1) by simp
  ultimately obtain n where
    "reduce_from (\<lambda>sum cost _. js_add sum cost) (Suc i) cs (Fin (real (a + m))) = Fin (real n)"
    using Cons.IH by blast
  then show ?case by (simp only: reduce_from.simps step) blast
qed

lemma total_small:
  assumes "\<forall>c\<in>set cs. small_amount c" and "length cs = 12"
  shows "is_Fin (total cs)"
proof -
  have "0 + 11000 * length cs < 2 ^ 53" using assms(2) by simp
  from total_from_small [OF assms(1) this, of 0]
  show ?thesis by (auto simp: total_def reduce_def)
qed

lemma baseline_small:
  "\<forall>c\<in>set (generateBaselineData INITIAL_DRIVING_HOURS (Fin 76)). small_amount c"
  by (simp add: baseline_data_initial small_amount_def)

lemma scenario_small:
  assumes "sp \<in> set catalog"
  shows "\<forall>c\<in>set (generateSpellData INITIAL_DRIVING_HOURS (Fin 76) sp m). small_amount c"
  unfolding all_set_conv_all_nth length_generateSpellData
proof (intro allI impI)
  fix i :: nat assume i: "i < 12"
  show "small_amount (generateSpellData INITIAL_DRIVING_HOURS (Fin 76) sp m ! i)"
  proof (cases "i < 6")
    case True
    then have "generateSpellData INITIAL_DRIVING_HOURS (Fin 76) sp m ! i
        = generateBaselineData INITIAL_DRIVING_HOURS (Fin 76) ! i"
      using i by (simp add: generateSpellData_nth generateBaselineData_nth)
    moreover have "generateBaselineData INITIAL_DRIVING_HOURS (Fin 76) ! i
        \<in> set (generateBaselineData INITIAL_DRIVING_HOURS (Fin 76))"
      using i by (intro nth_mem) (simp add: length_generateBaselineData)
    ultimately show ?thesis using baseline_small by simp
  next
    case False
    then show ?thesis
      using i catalog_cases [OF assms]
      by (auto simp: generateSpellData_nth small_amount_def calculateMonthlyCost_def
          NONE_def TIRE_def ENGINE_def BOTH_def BASE_COST_PER_HOUR_def)
  qed
qed

lemma savings_component:
  assumes "sp \<in> set catalog"
  shows "savings (calculateScenarioSavings INITIAL_DRIVING_HOURS (Fin 76)
      \<lparr>spell = sp, month = m, ident = i\<rparr>) \<noteq> NaN"
proof -
  have "is_Fin (total (generateBaselineData INITIAL_DRIVING_HOURS (Fin 76)))"
    by (rule total_small [OF baseline_small length_generateBaselineData])
  moreover have "is_Fin (total (generateSpellData INITIAL_DRIVING_HOURS (Fin 76) sp m))"
    by (rule total_small [OF scenario_small [OF assms] length_generateSpellData])
  ultimately show ?thesis
    by (auto simp: calculateScenarioSavings_def Let_def js_sub_def is_Fin_def)
qed

lemma nonneg_calculateMonthlyCost:
  "nonneg_cost (calculateMonthlyCost (Fin x) None)"
  "nonneg_cost (calculateMonthlyCost (Fin x) (Some (Fin r)))"
  by (simp_all add: calculateMonthlyCost_Fin nonneg_cost_Math_max)

lemma baseline_nonneg:
  assumes "6 \<le> length h" and "i < 12"
  shows "nonneg_cost (generateBaselineData (map Fin h) (Fin p) ! i)"
  using assms
  by (simp add: generateBaselineData_nth js_index_map_Fin nonneg_calculateMonthlyCost)

lemma scenario_nonneg:
  assumes "6 \<le> length h" and "i < 12" and "sp \<in> set catalog"
  shows "nonneg_cost (generateSpellData (map Fin h) (Fin p) sp m ! i)"
proof -
  obtain t e r where c: "tireCost sp = Fin t" "engineCost sp = Fin e" "hourlyRate sp = Fin r"
      "0 \<le> t" "0 \<le> e"
    using catalog_costs [OF assms(3)] by blast
  have "nonneg_cost (js_add (js_add (Fin t) (Fin e)) (calculateMonthlyCost (Fin p) (Some (Fin r))))"
    using c(4,5) by (intro nonneg_cost_add nonneg_calculateMonthlyCost) simp_all
  then show ?thesis
    using assms(1,2) c(1-3)
    by (simp add: generateSpellData_nth js_index_map_Fin nonneg_calculateMonthlyCost)
qed

lemma small_amount_is_Fin: "small_amount c \<Longrightarrow> is_Fin c"
  by (cases c) (simp_all add: small_amount_def)

text \<open>
  Claim C8. For a historical series that has the 6 months read, a predicted value, an
  option of the catalog and any month of activation, the baseline series and the series
  of the scenario both have exactly 12 entries, and every entry is a number that is not
  negative. The valid inputs of the specification (6 non-negative hours, a non-negative
  predicted value, a month from 6 to 11) are among these: the clamp of
  \<open>calculateMonthlyCost\<close> makes the sign of the hours irrelevant. An entry is \<open>Infinity\<close>
  only where a product overflows; on the hours of the component and their prediction 76
  every entry is finite.
\<close>

theorem series_length_nonneg:
  assumes "6 \<le> length h" and "sp \<in> set catalog"
  shows "length (generateBaselineData (map Fin h) (Fin p)) = 12
    \<and> length (generateSpellData (map Fin h) (Fin p) sp m) = 12
    \<and> (\<forall>c\<in>set (generateBaselineData (map Fin h) (Fin p)). nonneg_cost c)
    \<and> (\<forall>c\<in>set (generateSpellData (map Fin h) (Fin p) sp m). nonneg_cost c)
    \<and> (\<forall>c\<in>set (generateBaselineData INITIAL_DRIVING_HOURS (Fin 76)). is_Fin c)
    \<and> (\<forall>c\<in>set (generateSpellData INITIAL_DRIVING_HOURS (Fin 76) sp m). is_Fin c)"
proof -
  have "\<forall>c\<in>set (generateBaselineData INITIAL_DRIVING_HOURS (Fin 76)). is_Fin c"
    using baseline_small by (auto intro: small_amount_is_Fin)
  moreover have "\<forall>c\<in>set (generateSpellData INITIAL_DRIVING_HOURS (Fin 76) sp m). is_Fin c"
    using scenario_small [OF assms(2)] by (auto intro: small_amount_is_Fin)
  moreover have "length (generateBaselineData (map Fin h) (Fin p)) = 12
    \<and> length (generateSpellData (map Fin h) (Fin p) sp m) = 12
    \<and> (\<forall>c\<in>set (generateBaselineData (map Fin h) (Fin p)). nonneg_cost c)
    \<and> (\<forall>c\<in>set (generateSpellData (map Fin h) (Fin p) sp m). nonneg_cost c)"
    using assms
    by (simp add: length_generateBaselineData length_generateSpellData all_set_conv_all_nth
        baseline_nonneg scenario_nonneg)
  ultimately show ?thesis by blast
qed

theorem series_length_nonneg_witness:
  "length (generateBaselineData INITIAL_DRIVING_HOURS (Fin 76)) = 12
   \<and> length (generateSpellData INITIAL_DRIVING_HOURS (Fin 76) ENGINE 8) = 12
   \<and> list_all nonneg_cost (generateBaselineData INITIAL_DRIVING_HOURS (Fin 76))
   \<and> list_all nonneg_cost (generateSpellData INITIAL_DRIVING_HOURS (Fin 76) ENGINE 8)
   \<and> list_all is_Fin (generateSpellData INITIAL_DRIVING_HOURS (Fin 76) ENGINE 8)"
proof -
  have "6 \<le> length [23, 48, 43, 29, 50, 108 :: real]" and "ENGINE \<in> set catalog"
    by (simp_all add: catalog_def SPELL_OPTIONS_def)
  from series_length_nonneg [OF this, of 76 8]
  show ?thesis
    by (simp add: INITIAL_DRIVING_HOURS_Fin list_all_iff)
qed

section \<open>Savings and return on investment\<close>

lemma spell_data_both_6:
  "generateSpellData INITIAL_DRIVING_HOURS (Fin 76) BOTH 6
     = [Fin 2300, Fin 4800, Fin 4300, Fin 2900, Fin 5000, Fin 10800,
        Fin 6350, Fin 6308, Fin 6308, Fin 6308, Fin 6308, Fin 6308]"
  by (simp add: generateSpellData_def MONTHS_def upt_rec js_index_def
      INITIAL_DRIVING_HOURS_def calculateMonthlyCost_def BASE_COST_PER_HOUR_def BOTH_def)

lemma spell_data_tire_6:
  "generateSpellData INITIAL_DRIVING_HOURS (Fin 76) TIRE 6
     = [Fin 2300, Fin 4800, Fin 4300, Fin 2900, Fin 5000, Fin 10800,
        Fin 7078, Fin 7068, Fin 7068, Fin 7068, Fin 7068, Fin 7068]"
  by (simp add: generateSpellData_def MONTHS_def upt_rec js_index_def
      INITIAL_DRIVING_HOURS_def calculateMonthlyCost_def BASE_COST_PER_HOUR_def TIRE_def)

lemma total_baseline_initial:
  "total (generateBaselineData INITIAL_DRIVING_HOURS (Fin 76)) = Fin 75700"
  by (simp add: baseline_data_initial total_def reduce_def)

lemma total_both_6:
  "total (generateSpellData INITIAL_DRIVING_HOURS (Fin 76) BOTH 6) = Fin 67990"
  by (simp add: spell_data_both_6 total_def reduce_def)

lemma total_tire_6:
  "total (generateSpellData INITIAL_DRIVING_HOURS (Fin 76) TIRE 6) = Fin 72518"
  by (simp add: spell_data_tire_6 total_def reduce_def)

lemma costs_BOTH:
  "tireCost BOTH = Fin 10" "engineCost BOTH = Fin 32" "hourlyRate BOTH = Fin 83"
  by (simp_all add: BOTH_def)

lemma savings_both_6:
  "savings (calculateScenarioSavings INITIAL_DRIVING_HOURS (Fin 76)
      \<lparr>spell = BOTH, month = 6, ident = i\<rparr>) = Fin 7710"
  by (simp add: calculateScenarioSavings_def Let_def js_sub_def total_baseline_initial
      total_both_6)

lemma savings_tire_6:
  "savings (calculateScenarioSavings INITIAL_DRIVING_HOURS (Fin 76)
      \<lparr>spell = TIRE, month = 6, ident = i\<rparr>) = Fin 3182"
  by (simp add: calculateScenarioSavings_def Let_def js_sub_def total_baseline_initial
      total_tire_6)

lemma fl_7710_42: "fl (7710 / 42) = Fin (6458845447735589 / 35184372088832)"
proof -
  have "fl (7710 / 42) = Fin (of_int 6458845447735589 * 2 powi (7 - 52))"
    by (rule fl_eqI) (simp_all add: round_half_even_eval)
  then show ?thesis by simp
qed

lemma fl_roi_both_6:
  "fl (6458845447735589 / 35184372088832 * 100) = Fin (5045973006043429 / 274877906944)"
proof -
  have "fl (6458845447735589 / 35184372088832 * 100)
      = Fin (of_int 5045973006043429 * 2 powi (14 - 52))"
    by (rule fl_eqI) (simp_all add: round_half_even_eval)
  then show ?thesis by simp
qed

lemma quotient_7710_42_100:
  "js_mul (js_div (Fin 7710) (Fin 42)) (Fin 100) = Fin (5045973006043429 / 274877906944)"
proof -
  have "js_div (Fin 7710) (Fin 42) = Fin (6458845447735589 / 35184372088832)"
    by (simp only: js_div.simps fl_7710_42) simp
  then show ?thesis
    by (simp only: js_mul.simps fl_roi_both_6)
qed

lemma roi_both_6:
  "roi (calculateScenarioSavings INITIAL_DRIVING_HOURS (Fin 76)
      \<lparr>spell = BOTH, month = 6, ident = i\<rparr>) = js_mul (js_div (Fin 7710) (Fin 42)) (Fin 100)"
  by (simp add: calculateScenarioSavings_def Let_def js_sub_def total_baseline_initial
      total_both_6 costs_BOTH del: js_div.simps js_mul.simps)

text \<open>
  Claim C7. On the historical hours \<open>[23, 48, 43, 29, 50, 108]\<close>, whose predicted value
  is 76, the option \<open>BOTH\<close> (one-time cost 10 + 32 = 42, rate 83) activated in month 6
  costs 6350 in month 6 and 6308 in each of the months 7 to 11; the baseline totals
  75700, the scenario 67990, the savings are 7710 and the return on investment is the
  value of \<open>7710 / 42 * 100\<close> in the arithmetic of the code: the double
  \<open>5045973006043429 / 2\<^sup>3\<^sup>8\<close>, printed \<open>18357.14285714286\<close>, which is within \<open>10\<^sup>-\<^sup>1\<^sup>1\<close> of the
  real \<open>7710 / 42 * 100\<close>.
\<close>

theorem end_to_end_both_6:
  "predictedHours (JArray (map (\<lambda>n. Some (JNumber n)) INITIAL_DRIVING_HOURS)) = Fin 76
   \<and> js_add (tireCost BOTH) (engineCost BOTH) = Fin 42 \<and> hourlyRate BOTH = Fin 83
   \<and> generateSpellData INITIAL_DRIVING_HOURS (Fin 76) BOTH 6 ! 6 = Fin 6350
   \<and> map (\<lambda>i. generateSpellData INITIAL_DRIVING_HOURS (Fin 76) BOTH 6 ! i) [7, 8, 9, 10, 11]
       = [Fin 6308, Fin 6308, Fin 6308, Fin 6308, Fin 6308]
   \<and> total (generateBaselineData INITIAL_DRIVING_HOURS (Fin 76)) = Fin 75700
   \<and> total (generateSpellData INITIAL_DRIVING_HOURS (Fin 76) BOTH 6) = Fin 67990
   \<and> savings (calculateScenarioSavings INITIAL_DRIVING_HOURS (Fin 76)
        \<lparr>spell = BOTH, month = 6, ident = 0\<rparr>) = Fin 7710
   \<and> roi (calculateScenarioSavings INITIAL_DRIVING_HOURS (Fin 76)
        \<lparr>spell = BOTH, month = 6, ident = 0\<rparr>)
       = js_mul (js_div (Fin 7710) (Fin 42)) (Fin 100)
   \<and> js_mul (js_div (Fin 7710) (Fin 42)) (Fin 100) = Fin (5045973006043429 / 274877906944)
   \<and> \<bar>5045973006043429 / 274877906944 - 7710 / 42 * 100 :: real\<bar> < 1 / 10 ^ 11"
proof -
  have "generateSpellData INITIAL_DRIVING_HOURS (Fin 76) BOTH 6 ! 6 = Fin 6350
   \<and> map (\<lambda>i. generateSpellData INITIAL_DRIVING_HOURS (Fin 76) BOTH 6 ! i) [7, 8, 9, 10, 11]
       = [Fin 6308, Fin 6308, Fin 6308, Fin 6308, Fin 6308]"
    by (simp add: spell_data_both_6)
  moreover have "js_add (tireCost BOTH) (engineCost BOTH) = Fin 42 \<and> hourlyRate BOTH = Fin 83"
    by (simp add: costs_BOTH)
  moreover have "\<bar>5045973006043429 / 274877906944 - 7710 / 42 * 100 :: real\<bar> < 1 / 10 ^ 11"
    by simp
  ultimately show ?thesis
    by (simp only: predictedHours_initial total_baseline_initial
        total_both_6 savings_both_6 roi_both_6 quotient_7710_42_100 simp_thms)
qed

theorem end_to_end_both_6_witness:
  "total (generateBaselineData INITIAL_DRIVING_HOURS (Fin 76)) = Fin 75700
   \<and> total (generateSpellData INITIAL_DRIVING_HOURS (Fin 76) BOTH 6) = Fin 67990
   \<and> js_sub (Fin 75700) (Fin 67990) = Fin 7710"
  using end_to_end_both_6 by (simp add: js_sub_def)

lemma roi_NONE:
  "roi (calculateScenarioSavings hours predicted \<lparr>spell = NONE, month = m, ident = i\<rparr>) = NaN"
proof -
  let ?t = "total (generateBaselineData hours predicted)"
  have "roi (calculateScenarioSavings hours predicted \<lparr>spell = NONE, month = m, ident = i\<rparr>)
      = js_mul (js_div (js_sub ?t ?t) (js_add (tireCost NONE) (engineCost NONE))) (Fin 100)"
    by (simp add: calculateScenarioSavings_def Let_def generateSpellData_NONE)
  also have "\<dots> = js_mul (js_div (js_sub ?t ?t) (Fin 0)) (Fin 100)"
    by (simp add: NONE_def)
  also have "\<dots> = NaN"
    using js_sub_self [of ?t] by auto
  finally show ?thesis .
qed

text \<open>
  Claim C4 as stated fails: for the option \<open>NONE\<close>, whose one-time cost is 0, nothing is
  thrown or flagged; the \<open>roi\<close> that \<open>calculateScenarioSavings\<close> returns is the number
  \<open>NaN\<close>, the value of \<open>0 / 0 * 100\<close>.
\<close>

theorem roi_no_spell_is_NaN:
  "js_add (tireCost NONE) (engineCost NONE) = Fin 0
   \<and> savings (calculateScenarioSavings INITIAL_DRIVING_HOURS (Fin 76)
          \<lparr>spell = NONE, month = 6, ident = 0\<rparr>) = Fin 0
   \<and> roi (calculateScenarioSavings INITIAL_DRIVING_HOURS (Fin 76)
          \<lparr>spell = NONE, month = 6, ident = 0\<rparr>) = NaN"
proof -
  have "js_add (tireCost NONE) (engineCost NONE) = Fin 0"
    by (simp add: NONE_def)
  moreover have "savings (calculateScenarioSavings INITIAL_DRIVING_HOURS (Fin 76)
          \<lparr>spell = NONE, month = 6, ident = 0\<rparr>) = Fin 0"
    by (simp add: calculateScenarioSavings_def Let_def generateSpellData_NONE
        total_baseline_initial js_sub_def)
  ultimately show ?thesis by (simp add: roi_NONE)
qed

text \<open>
  Claim C4, amended. For the option \<open>NONE\<close>, whose one-time cost is 0, the \<open>roi\<close> that
  \<open>calculateScenarioSavings\<close> returns is the number \<open>NaN\<close>. For every option with a positive
  one-time cost \<open>c\<close> and savings \<open>s\<close>, the \<open>roi\<close> is \<open>(s / c) * 100\<close> in the arithmetic of the
  code, the quotient and the product each rounded to a double.
\<close>

theorem roi_by_one_time_cost:
  "roi (calculateScenarioSavings hours predicted \<lparr>spell = NONE, month = m, ident = i\<rparr>) = NaN
   \<and> (savings (calculateScenarioSavings hours predicted cfg) = Fin s
      \<and> js_add (tireCost (spell cfg)) (engineCost (spell cfg)) = Fin c \<and> 0 < c \<longrightarrow>
      roi (calculateScenarioSavings hours predicted cfg) = js_mul (fl (s / c)) (Fin 100))"
proof (intro conjI impI)
  show "roi (calculateScenarioSavings hours predicted \<lparr>spell = NONE, month = m, ident = i\<rparr>) = NaN"
    by (rule roi_NONE)
next
  assume a: "savings (calculateScenarioSavings hours predicted cfg) = Fin s
      \<and> js_add (tireCost (spell cfg)) (engineCost (spell cfg)) = Fin c \<and> 0 < c"
  then have "roi (calculateScenarioSavings hours predicted cfg)
      = js_mul (js_div (Fin s) (Fin c)) (Fin 100)"
    by (simp add: calculateScenarioSavings_def Let_def del: js_div.simps js_mul.simps)
  then show "roi (calculateScenarioSavings hours predicted cfg) = js_mul (fl (s / c)) (Fin 100)"
    using a by simp
qed

theorem roi_by_one_time_cost_witness:
  "savings (calculateScenarioSavings INITIAL_DRIVING_HOURS (Fin 76)
       \<lparr>spell = BOTH, month = 6, ident = 0\<rparr>) = Fin 7710
   \<and> js_add (tireCost BOTH) (engineCost BOTH) = Fin 42
   \<and> roi (calculateScenarioSavings INITIAL_DRIVING_HOURS (Fin 76)
       \<lparr>spell = BOTH, month = 6, ident = 0\<rparr>) = Fin (5045973006043429 / 274877906944)
   \<and> roi (calculateScenarioSavings INITIAL_DRIVING_HOURS (Fin 76)
       \<lparr>spell = NONE, month = 7, ident = 1\<rparr>) = NaN"
proof -
  have c: "js_add (tireCost BOTH) (engineCost BOTH) = Fin 42"
    by (simp add: costs_BOTH)
  have "js_mul (fl (7710 / 42)) (Fin 100) = Fin (5045973006043429 / 274877906944)"
    by (simp only: fl_7710_42 js_mul.simps fl_roi_both_6)
  then show ?thesis
    using roi_by_one_time_cost [of INITIAL_DRIVING_HOURS "Fin 76" 7 1
      "\<lparr>spell = BOTH, month = 6, ident = 0\<rparr>" 7710 42] savings_both_6 [of 0] c
    by (simp del: js_mul.simps)
qed

section \<open>The list of selected spells\<close>

text \<open>
  Claim C10. \<open>updateSpell\<close> keeps the length of the list, its order and every
  identifier; an entry with the given identifier gets the new spell and the new month
  and is otherwise unchanged, and every other entry is unchanged. \<open>removeSpell\<close> leaves
  no entry with the given identifier, and keeps every other entry, as often as it
  occurred and in the original order.
\<close>

theorem update_remove_frame:
  "length (updateSpell i s m prev) = length prev
   \<and> map ident (updateSpell i s m prev) = map ident prev
   \<and> (\<forall>k<length prev.
         updateSpell i s m prev ! k =
           (if ident (prev ! k) = i then (prev ! k)\<lparr>spell := s, month := m\<rparr> else prev ! k))
   \<and> (\<forall>c\<in>set (removeSpell i prev). ident c \<noteq> i)
   \<and> subseq (removeSpell i prev) prev
   \<and> (\<forall>c. ident c \<noteq> i \<longrightarrow> count_list (removeSpell i prev) c = count_list prev c)"
proof (intro conjI)
  show "\<forall>c. ident c \<noteq> i \<longrightarrow> count_list (removeSpell i prev) c = count_list prev c"
    by (induction prev) (auto simp: removeSpell_def)
  show "map ident (updateSpell i s m prev) = map ident prev"
    by (induction prev) (auto simp: updateSpell_def)
qed (auto simp: updateSpell_def removeSpell_def)

theorem update_remove_frame_witness:
  "updateSpell 1 BOTH 9
      [\<lparr>spell = NONE, month = 6, ident = 1\<rparr>, \<lparr>spell = TIRE, month = 7, ident = 2\<rparr>,
       \<lparr>spell = ENGINE, month = 8, ident = 1\<rparr>]
     = [\<lparr>spell = BOTH, month = 9, ident = 1\<rparr>, \<lparr>spell = TIRE, month = 7, ident = 2\<rparr>,
        \<lparr>spell = BOTH, month = 9, ident = 1\<rparr>]
   \<and> removeSpell 1
      [\<lparr>spell = NONE, month = 6, ident = 1\<rparr>, \<lparr>spell = TIRE, month = 7, ident = 2\<rparr>,
       \<lparr>spell = ENGINE, month = 8, ident = 1\<rparr>]
     = [\<lparr>spell = TIRE, month = 7, ident = 2\<rparr>]"
  using update_remove_frame [of 1 BOTH 9
      "[\<lparr>spell = NONE, month = 6, ident = 1\<rparr>, \<lparr>spell = TIRE, month = 7, ident = 2\<rparr>,
        \<lparr>spell = ENGINE, month = 8, ident = 1\<rparr>]"]
  by (simp add: updateSpell_def removeSpell_def)

section \<open>The recommended scenario\<close>

lemma js_gt_rank: "a \<noteq> NaN \<Longrightarrow> b \<noteq> NaN \<Longrightarrow> js_gt a b \<longleftrightarrow> rank b < rank a"
  by (cases a; cases b) (simp_all add: rank_def)

lemma js_ge_rank: "a \<noteq> NaN \<Longrightarrow> b \<noteq> NaN \<Longrightarrow> js_ge a b \<longleftrightarrow> rank b \<le> rank a"
  by (cases a; cases b) (simp_all add: rank_def)

lemma reduce_from_snoc:
  "reduce_from f i (xs @ [x]) acc = f (reduce_from f i xs acc) x (i + length xs)"
  by (induction xs arbitrary: i acc) simp_all

text \<open>The reduction that keeps the first element of greatest savings.\<close>

lemma keep_best_from:
  fixes b :: "'a analysis_scheme"
  assumes "\<forall>x\<in>set (b # xs). savings x \<noteq> NaN"
  shows "\<exists>k<length (b # xs).
     reduce_from (\<lambda>best current _. if js_gt (savings current) (savings best) then current else best)
        i xs b = (b # xs) ! k
     \<and> (\<forall>j<length (b # xs). rank (savings ((b # xs) ! j)) \<le> rank (savings ((b # xs) ! k)))
     \<and> (\<forall>j<k. rank (savings ((b # xs) ! j)) < rank (savings ((b # xs) ! k)))"
  using assms
proof (induction xs rule: rev_induct)
  case Nil
  then show ?case by simp
next
  case (snoc x xs)
  let ?f = "\<lambda>best current (_::nat). if js_gt (savings current) (savings best) then current else best"
  let ?v = "\<lambda>c. rank (savings c)"
  let ?ys = "b # xs"
  from snoc obtain k where k: "k < length ?ys" "reduce_from ?f i xs b = ?ys ! k"
    "\<forall>j<length ?ys. ?v (?ys ! j) \<le> ?v (?ys ! k)"
    "\<forall>j<k. ?v (?ys ! j) < ?v (?ys ! k)"
    by auto
  have "?ys ! k \<in> set ?ys" using k(1) by (rule nth_mem)
  then have fx: "savings x \<noteq> NaN" and fk: "savings (?ys ! k) \<noteq> NaN"
    using snoc.prems by auto
  have gt: "js_gt (savings x) (savings (?ys ! k)) \<longleftrightarrow> ?v (?ys ! k) < ?v x"
    using fx fk by (rule js_gt_rank)
  have bs: "b # xs @ [x] = ?ys @ [x]" by simp
  have red: "reduce_from ?f i (xs @ [x]) b = (if js_gt (savings x) (savings (?ys ! k)) then x else ?ys ! k)"
    by (simp only: reduce_from_snoc k(2))
  show ?case
  proof (cases "?v (?ys ! k) < ?v x")
    case True
    have "reduce_from ?f i (xs @ [x]) b = (?ys @ [x]) ! length ?ys"
      using True by (simp only: red gt nth_append_length if_True)
    moreover have "\<forall>j<length (?ys @ [x]). ?v ((?ys @ [x]) ! j) \<le> ?v ((?ys @ [x]) ! length ?ys)"
    proof (intro allI impI)
      fix j assume "j < length (?ys @ [x])"
      then consider "j < length ?ys" | "j = length ?ys" by fastforce
      then show "?v ((?ys @ [x]) ! j) \<le> ?v ((?ys @ [x]) ! length ?ys)"
      proof cases
        case 1
        then have "?v ((?ys @ [x]) ! j) = ?v (?ys ! j)"
          by (simp only: nth_append if_True)
        also have "\<dots> \<le> ?v (?ys ! k)" using k(3) 1 by blast
        also have "\<dots> < ?v x" by (rule True)
        finally show ?thesis by (simp only: nth_append_length)
      next
        case 2
        then show ?thesis by simp
      qed
    qed
    moreover have "\<forall>j<length ?ys. ?v ((?ys @ [x]) ! j) < ?v ((?ys @ [x]) ! length ?ys)"
    proof (intro allI impI)
      fix j assume 1: "j < length ?ys"
      then have "?v ((?ys @ [x]) ! j) = ?v (?ys ! j)"
        by (simp only: nth_append if_True)
      also have "\<dots> \<le> ?v (?ys ! k)" using k(3) 1 by blast
      also have "\<dots> < ?v x" by (rule True)
      finally show "?v ((?ys @ [x]) ! j) < ?v ((?ys @ [x]) ! length ?ys)"
        by (simp only: nth_append_length)
    qed
    ultimately show ?thesis
      unfolding bs by (intro exI [of _ "length ?ys"]) simp
  next
    case False
    have kk: "(?ys @ [x]) ! k = ?ys ! k"
      using k(1) by (simp only: nth_append if_True)
    have "reduce_from ?f i (xs @ [x]) b = (?ys @ [x]) ! k"
      using False by (simp only: red gt kk if_False)
    moreover have "\<forall>j<length (?ys @ [x]). ?v ((?ys @ [x]) ! j) \<le> ?v ((?ys @ [x]) ! k)"
    proof (intro allI impI)
      fix j assume "j < length (?ys @ [x])"
      then consider "j < length ?ys" | "j = length ?ys" by fastforce
      then show "?v ((?ys @ [x]) ! j) \<le> ?v ((?ys @ [x]) ! k)"
      proof cases
        case 1
        then have "?v ((?ys @ [x]) ! j) = ?v (?ys ! j)"
          by (simp only: nth_append if_True)
        also have "\<dots> \<le> ?v (?ys ! k)" using k(3) 1 by blast
        finally show ?thesis by (simp only: kk)
      next
        case 2
        then have "?v ((?ys @ [x]) ! j) = ?v x"
          by (simp only: nth_append_length)
        also have "\<dots> \<le> ?v (?ys ! k)" using False by simp
        finally show ?thesis by (simp only: kk)
      qed
    qed
    moreover have "\<forall>j<k. ?v ((?ys @ [x]) ! j) < ?v ((?ys @ [x]) ! k)"
    proof (intro allI impI)
      fix j assume 1: "j < k"
      then have "j < length ?ys" using k(1) by simp
      then have "?v ((?ys @ [x]) ! j) = ?v (?ys ! j)"
        by (simp only: nth_append if_True)
      also have "\<dots> < ?v (?ys ! k)" using k(4) 1 by blast
      finally show "?v ((?ys @ [x]) ! j) < ?v ((?ys @ [x]) ! k)"
        by (simp only: kk)
    qed
    moreover have "k < length (?ys @ [x])" using k(1) by simp
    ultimately show ?thesis
      unfolding bs by (intro exI [of _ k]) (simp only: simp_thms)
  qed
qed

lemma bestScenario_first_max:
  assumes ne: "analyses \<noteq> []" and fin: "\<forall>x\<in>set analyses. savings x \<noteq> NaN"
  shows "\<exists>k<length analyses. bestScenario analyses = analyses ! k
     \<and> (\<forall>j<length analyses. rank (savings (analyses ! j)) \<le> rank (savings (analyses ! k)))
     \<and> (\<forall>j<k. rank (savings (analyses ! j)) < rank (savings (analyses ! k)))"
proof -
  let ?f = "\<lambda>best current (_::nat). if js_gt (savings current) (savings best) then current else best"
  let ?v = "\<lambda>x. rank (savings x)"
  let ?a = "analyses ! 0"
  let ?zs = "?a # analyses"
  have a_in: "?a \<in> set analyses" using ne by simp
  have best: "bestScenario analyses = reduce_from ?f 0 analyses ?a"
    by (simp add: bestScenario_def reduce_def)
  have "\<forall>x\<in>set ?zs. savings x \<noteq> NaN" using fin a_in by simp
  from keep_best_from [OF this, of 0]
  obtain k' where k': "k' < length ?zs" "reduce_from ?f 0 analyses ?a = ?zs ! k'"
      "\<forall>j<length ?zs. ?v (?zs ! j) \<le> ?v (?zs ! k')"
      "\<forall>j<k'. ?v (?zs ! j) < ?v (?zs ! k')"
    by blast
  have le_all: "\<forall>j<length analyses. ?v (analyses ! j) \<le> ?v (?zs ! k')"
  proof (intro allI impI)
    fix j assume "j < length analyses"
    then have "Suc j < length ?zs" by simp
    then have "?v (?zs ! Suc j) \<le> ?v (?zs ! k')" using k'(3) by blast
    then show "?v (analyses ! j) \<le> ?v (?zs ! k')" by simp
  qed
  show ?thesis
  proof (cases k')
    case 0
    then have "bestScenario analyses = analyses ! 0" using best k'(2) by simp
    moreover have "\<forall>j<length analyses. ?v (analyses ! j) \<le> ?v (analyses ! 0)"
      using le_all 0 by simp
    moreover have "0 < length analyses" using ne by simp
    ultimately show ?thesis by (intro exI [of _ 0]) simp
  next
    case (Suc k)
    have zk: "?zs ! k' = analyses ! k" using Suc by simp
    have klen: "k < length analyses" using k'(1) Suc by simp
    have "\<forall>j<k. ?v (analyses ! j) < ?v (analyses ! k)"
    proof (intro allI impI)
      fix j assume "j < k"
      then have "Suc j < k'" using Suc by simp
      then have "?v (?zs ! Suc j) < ?v (?zs ! k')" using k'(4) by blast
      then show "?v (analyses ! j) < ?v (analyses ! k)" using zk by simp
    qed
    moreover have "bestScenario analyses = analyses ! k" using best k'(2) zk by simp
    moreover have "\<forall>j<length analyses. ?v (analyses ! j) \<le> ?v (analyses ! k)"
      using le_all zk by simp
    ultimately show ?thesis using klen by (intro exI [of _ k]) simp
  qed
qed

lemma scenarioAnalysis_nth:
  "k < length selectedSpells \<Longrightarrow>
     savings (scenarioAnalysis hours predicted selectedSpells ! k)
       = savings (calculateScenarioSavings hours predicted (selectedSpells ! k))
     \<and> spellConfig (scenarioAnalysis hours predicted selectedSpells ! k) = selectedSpells ! k
     \<and> roi (scenarioAnalysis hours predicted selectedSpells ! k)
       = roi (calculateScenarioSavings hours predicted (selectedSpells ! k))"
  by (simp add: scenarioAnalysis_def Let_def calculateScenarioSavings_def)

lemma getRecommendedScenario_first_best_aux:
  assumes "selectedSpells \<noteq> []"
    and "\<forall>c\<in>set selectedSpells. savings (calculateScenarioSavings hours predicted c) \<noteq> NaN"
  shows "\<exists>r k. getRecommendedScenario toFixed hours predicted selectedSpells = Some r
     \<and> k < length selectedSpells
     \<and> spellConfig r = selectedSpells ! k
     \<and> savings r = savings (calculateScenarioSavings hours predicted (selectedSpells ! k))
     \<and> (\<forall>j<length selectedSpells.
           js_ge (savings r) (savings (calculateScenarioSavings hours predicted (selectedSpells ! j))))
     \<and> (\<forall>j<k.
           js_gt (savings r) (savings (calculateScenarioSavings hours predicted (selectedSpells ! j))))"
proof -
  let ?as = "scenarioAnalysis hours predicted selectedSpells"
  let ?s = "\<lambda>j. savings (calculateScenarioSavings hours predicted (selectedSpells ! j))"
  have len: "length ?as = length selectedSpells" by (simp add: scenarioAnalysis_def)
  have sfin: "\<forall>j<length selectedSpells. ?s j \<noteq> NaN"
    using assms(2) by simp
  have nth_s: "\<forall>j<length selectedSpells. savings (?as ! j) = ?s j"
    by (simp add: scenarioAnalysis_nth)
  have "\<forall>x\<in>set ?as. savings x \<noteq> NaN"
    unfolding all_set_conv_all_nth len using sfin nth_s by simp
  moreover have "?as \<noteq> []" using assms(1) len by auto
  ultimately obtain k where k: "k < length ?as" "bestScenario ?as = ?as ! k"
      "\<forall>j<length ?as. rank (savings (?as ! j)) \<le> rank (savings (?as ! k))"
      "\<forall>j<k. rank (savings (?as ! j)) < rank (savings (?as ! k))"
    using bestScenario_first_max [of ?as] by blast
  have kl: "k < length selectedSpells" using k(1) len by simp
  have sk: "savings (?as ! k) = ?s k" using nth_s kl by blast
  have ge: "\<forall>j<length selectedSpells. js_ge (?s k) (?s j)"
  proof (intro allI impI)
    fix j assume j: "j < length selectedSpells"
    then have "rank (?s j) \<le> rank (?s k)" using k(3) len nth_s sk by metis
    then show "js_ge (?s k) (?s j)" using sfin j kl by (simp add: js_ge_rank)
  qed
  have gt: "\<forall>j<k. js_gt (?s k) (?s j)"
  proof (intro allI impI)
    fix j assume j: "j < k"
    then have jl: "j < length selectedSpells" using kl by simp
    have "rank (savings (?as ! j)) < rank (savings (?as ! k))" using k(4) j by blast
    then have "rank (?s j) < rank (?s k)" using nth_s jl sk by simp
    then show "js_gt (?s k) (?s j)" using sfin jl kl by (simp add: js_gt_rank)
  qed
  let ?r = "the (getRecommendedScenario toFixed hours predicted selectedSpells)"
  have some: "getRecommendedScenario toFixed hours predicted selectedSpells = Some ?r"
    using assms(1) by (simp add: getRecommendedScenario_def Let_def)
  have rs: "savings ?r = ?s k" "spellConfig ?r = selectedSpells ! k"
    using assms(1) k(2) kl by (simp_all add: getRecommendedScenario_def Let_def scenarioAnalysis_nth)
  show ?thesis
    using some kl rs ge gt by (intro exI [of _ ?r] exI [of _ k]) simp
qed

lemma savings_catalog:
  assumes "\<forall>c\<in>set selectedSpells. spell c \<in> set catalog"
  shows "\<forall>c\<in>set selectedSpells.
     savings (calculateScenarioSavings INITIAL_DRIVING_HOURS (Fin 76) c) \<noteq> NaN"
proof
  fix c :: spell_config
  assume c: "c \<in> set selectedSpells"
  obtain sp m i where eq: "c = \<lparr>spell = sp, month = m, ident = i\<rparr>"
    by (cases c) simp
  from assms c eq have "sp \<in> set catalog" by auto
  then show "savings (calculateScenarioSavings INITIAL_DRIVING_HOURS (Fin 76) c) \<noteq> NaN"
    unfolding eq by (rule savings_component)
qed

text \<open>
  Claim C6. For a non-empty list of configurations whose savings are numbers (none is
  \<open>NaN\<close>) \<open>getRecommendedScenario\<close> returns the analysis of one of them, at some position
  \<open>k\<close>: its savings are greater than or equal to the savings of every configuration of
  the list, and strictly greater than those of every configuration before position \<open>k\<close>,
  so that among configurations of equal greatest savings the earliest is returned. The
  lists that the component can build, of options of the catalog with any months and
  identifiers, on its constant hours and their prediction 76, are such lists.
\<close>

theorem getRecommendedScenario_first_best:
  assumes "selectedSpells \<noteq> []"
  shows "((\<forall>c\<in>set selectedSpells. savings (calculateScenarioSavings hours predicted c) \<noteq> NaN) \<longrightarrow>
     (\<exists>r k. getRecommendedScenario toFixed hours predicted selectedSpells = Some r
       \<and> k < length selectedSpells
       \<and> spellConfig r = selectedSpells ! k
       \<and> savings r = savings (calculateScenarioSavings hours predicted (selectedSpells ! k))
       \<and> (\<forall>j<length selectedSpells.
             js_ge (savings r)
               (savings (calculateScenarioSavings hours predicted (selectedSpells ! j))))
       \<and> (\<forall>j<k.
             js_gt (savings r)
               (savings (calculateScenarioSavings hours predicted (selectedSpells ! j))))))
   \<and> ((\<forall>c\<in>set selectedSpells. spell c \<in> set catalog) \<longrightarrow>
     (\<exists>r k. getRecommendedScenario toFixed INITIAL_DRIVING_HOURS (Fin 76) selectedSpells = Some r
       \<and> k < length selectedSpells
       \<and> spellConfig r = selectedSpells ! k
       \<and> savings r
           = savings (calculateScenarioSavings INITIAL_DRIVING_HOURS (Fin 76) (selectedSpells ! k))
       \<and> (\<forall>j<length selectedSpells.
             js_ge (savings r)
               (savings (calculateScenarioSavings INITIAL_DRIVING_HOURS (Fin 76)
                  (selectedSpells ! j))))
       \<and> (\<forall>j<k.
             js_gt (savings r)
               (savings (calculateScenarioSavings INITIAL_DRIVING_HOURS (Fin 76)
                  (selectedSpells ! j))))))"
proof (intro conjI impI)
  assume "\<forall>c\<in>set selectedSpells. savings (calculateScenarioSavings hours predicted c) \<noteq> NaN"
  with assms show "\<exists>r k. getRecommendedScenario toFixed hours predicted selectedSpells = Some r
       \<and> k < length selectedSpells
       \<and> spellConfig r = selectedSpells ! k
       \<and> savings r = savings (calculateScenarioSavings hours predicted (selectedSpells ! k))
       \<and> (\<forall>j<length selectedSpells.
             js_ge (savings r)
               (savings (calculateScenarioSavings hours predicted (selectedSpells ! j))))
       \<and> (\<forall>j<k.
             js_gt (savings r)
               (savings (calculateScenarioSavings hours predicted (selectedSpells ! j))))"
    by (rule getRecommendedScenario_first_best_aux)
next
  assume "\<forall>c\<in>set selectedSpells. spell c \<in> set catalog"
  then have "\<forall>c\<in>set selectedSpells.
     savings (calculateScenarioSavings INITIAL_DRIVING_HOURS (Fin 76) c) \<noteq> NaN"
    by (rule savings_catalog)
  with assms show "\<exists>r k.
       getRecommendedScenario toFixed INITIAL_DRIVING_HOURS (Fin 76) selectedSpells = Some r
       \<and> k < length selectedSpells
       \<and> spellConfig r = selectedSpells ! k
       \<and> savings r
           = savings (calculateScenarioSavings INITIAL_DRIVING_HOURS (Fin 76) (selectedSpells ! k))
       \<and> (\<forall>j<length selectedSpells.
             js_ge (savings r)
               (savings (calculateScenarioSavings INITIAL_DRIVING_HOURS (Fin 76)
                  (selectedSpells ! j))))
       \<and> (\<forall>j<k.
             js_gt (savings r)
               (savings (calculateScenarioSavings INITIAL_DRIVING_HOURS (Fin 76)
                  (selectedSpells ! j))))"
    by (rule getRecommendedScenario_first_best_aux)
qed

theorem getRecommendedScenario_first_best_witness:
  "\<exists>r. getRecommendedScenario (\<lambda>n d. []) INITIAL_DRIVING_HOURS (Fin 76)
         [\<lparr>spell = TIRE, month = 6, ident = 1\<rparr>, \<lparr>spell = BOTH, month = 6, ident = 2\<rparr>,
          \<lparr>spell = BOTH, month = 6, ident = 3\<rparr>] = Some r
       \<and> spellConfig r = \<lparr>spell = BOTH, month = 6, ident = 2\<rparr>
       \<and> savings r = Fin 7710"
proof -
  let ?cs = "[\<lparr>spell = TIRE, month = 6, ident = 1\<rparr>, \<lparr>spell = BOTH, month = 6, ident = 2\<rparr>,
          \<lparr>spell = BOTH, month = 6, ident = 3\<rparr>]"
  let ?s = "\<lambda>j. savings (calculateScenarioSavings INITIAL_DRIVING_HOURS (Fin 76) (?cs ! j))"
  have s: "?s 0 = Fin 3182" "?s 1 = Fin 7710" "?s 2 = Fin 7710"
    by (simp_all add: savings_tire_6 savings_both_6)
  have ne: "?cs \<noteq> []" and cat: "\<forall>c\<in>set ?cs. spell c \<in> set catalog"
    by (simp_all add: catalog_def SPELL_OPTIONS_def)
  from getRecommendedScenario_first_best [OF ne, of INITIAL_DRIVING_HOURS "Fin 76" "\<lambda>n d. []"] cat
  obtain r k where conj:
      "getRecommendedScenario (\<lambda>n d. []) INITIAL_DRIVING_HOURS (Fin 76) ?cs = Some r
       \<and> k < length ?cs \<and> spellConfig r = ?cs ! k \<and> savings r = ?s k
       \<and> (\<forall>j<length ?cs. js_ge (savings r) (?s j)) \<and> (\<forall>j<k. js_gt (savings r) (?s j))"
    by blast
  from conj have some: "getRecommendedScenario (\<lambda>n d. []) INITIAL_DRIVING_HOURS (Fin 76) ?cs = Some r"
    and cfg: "spellConfig r = ?cs ! k" and sav: "savings r = ?s k"
    and ge: "\<forall>j<length ?cs. js_ge (savings r) (?s j)"
    and gt: "\<forall>j<k. js_gt (savings r) (?s j)"
    by blast+
  from conj have "k < 3" by simp
  then consider "k = 0" | "k = 1" | "k = 2" by linarith
  then have "k = 1"
  proof cases
    case 1
    then have "savings r = Fin 3182" using sav s(1) by simp
    moreover have "js_ge (savings r) (?s 1)" using ge [rule_format, of 1] by simp
    ultimately show ?thesis using s(2) by simp
  next
    case 2
    then show ?thesis .
  next
    case 3
    then have "savings r = Fin 7710" using sav s(3) by simp
    moreover have "js_gt (savings r) (?s 1)" using gt [rule_format, of 1] 3 by simp
    ultimately show ?thesis using s(2) by simp
  qed
  then have "spellConfig r = \<lparr>spell = BOTH, month = 6, ident = 2\<rparr>" "savings r = Fin 7710"
    using cfg sav s(2) by simp_all
  then show ?thesis using some by blast
qed

end
